theory Spec2Isabelle
  imports Complex_Main "HOL-Library.Sublist"
begin

section \<open>The PDF viewer: data model\<close>

text \<open>
  The development follows \<^verbatim>\<open>src/pdf_viewer.py\<close>, class \<^verbatim>\<open>ModernPDFViewer\<close>.
  Python numbers (the ints of Tk events and widget sizes, the floats of canvas
  coordinates and page rectangles) are modelled exactly: widget and image sizes as
  \<^typ>\<open>int\<close>, coordinates as \<^typ>\<open>real\<close>. Float rounding is not modelled.
  A Python \<^verbatim>\<open>str\<close> is the list of its code points.
\<close>

type_synonym pystr = "nat list"

datatype py_error = AttributeError | IndexError | ZeroDivisionError | ValueError
  | TypeError | KeyError | TclError | FitzError | SaveError

text \<open>
  The attribute \<^verbatim>\<open>_page_photo\<close>: absent (what \<^verbatim>\<open>hasattr\<close> tests), \<^verbatim>\<open>None\<close>, or a
  \<^verbatim>\<open>PhotoImage\<close> with its \<^verbatim>\<open>width()\<close> and \<^verbatim>\<open>height()\<close>.
\<close>

datatype photo_attr = NoAttr | PyNone | PhotoImage int int

type_synonym rect = "real \<times> real \<times> real \<times> real"

text \<open>One text annotation, the dict built by \<^verbatim>\<open>save_text\<close>.\<close>

record text_data =
  td_x :: real
  td_y :: real
  td_text :: pystr
  td_font :: pystr
  td_size :: int
  td_color :: pystr
  td_id :: nat

text \<open>
  Canvas items carry tags and a geometry; ids are handed out in creation order, from 1.
  A rectangle item has four coordinates, every other item used here (image, text,
  embedded window) has its anchor point. \<open>Text_id r\<close> is the tag
  \<^verbatim>\<open>text_id_{id(text_data)}\<close> of the dict at address \<open>r\<close>.
\<close>

datatype tag = Pdf | Redact_overlay | Text_overlay | Text_id nat | Text_selected

datatype shape = Rectangle real real real real | Anchor real real

record item =
  tags :: "tag list"
  shape :: shape

text \<open>The dict \<^verbatim>\<open>_redact_overlay\<close> and the dict \<^verbatim>\<open>_text_drag\<close>.\<close>

datatype redact_mode = Draw | Move

record redact_state =
  start_x :: "real option"
  start_y :: "real option"
  current_item :: "nat option"
  mode :: redact_mode
  offset :: "(real \<times> real) option"

record drag_state =
  drag_item :: nat
  drag_td :: nat
  dx :: real
  dy :: real

text \<open>
  The viewer object. \<^verbatim>\<open>pdf_document\<close> is the list of the pages' rectangles
  (\<^verbatim>\<open>page.rect.width\<close>, \<^verbatim>\<open>page.rect.height\<close>). Text annotations are Python dicts that
  are shared between the overlay store, the selection and the drag state, so they live
  in \<open>heap\<close> and are referred to by address (\<open>next_ref\<close> is the next fresh one).
  \<open>canvas_width\<close> and \<open>canvas_height\<close> are what \<^verbatim>\<open>pdf_canvas.winfo_width()\<close> and
  \<^verbatim>\<open>winfo_height()\<close> return. \<open>text_entries\<close> holds, per embedded Entry window, what its
  \<^verbatim>\<open>save_text\<close> closure captured: \<^verbatim>\<open>event.x\<close>, \<^verbatim>\<open>event.y\<close> and \<^verbatim>\<open>tk_family\<close>.
  \<open>text_overlay\<close> is \<open>None\<close> while the attribute \<^verbatim>\<open>_text_overlay\<close> does not exist, else
  its \<^verbatim>\<open>active\<close> flag; \<open>text_panel\<close> is \<^verbatim>\<open>hasattr(self, '_text_panel')\<close>. The list \<^verbatim>\<open>_thumb_buttons\<close> has one button per page, so a
  button is named by its page index.
\<close>

record viewer =
  pdf_document :: "(real \<times> real) list"
  total_pages :: nat
  current_page :: nat
  page_photo :: photo_attr
  thumbnail_cache :: "(nat \<times> (int \<times> int)) list"
  max_thumb_cache :: nat
  thumb_photos_by_button :: "nat \<rightharpoonup> (int \<times> int)"
  thumb_batch_idx :: nat
  base_zoom :: real
  zoom :: real
  min_zoom :: real
  max_zoom :: real
  fit_to_window :: bool
  redactions_by_page :: "nat \<rightharpoonup> rect list"
  texts_by_page :: "nat \<rightharpoonup> nat list"
  heap :: "nat \<Rightarrow> text_data"
  next_ref :: nat
  selected_text :: "(nat \<times> nat) option"
  text_overlay :: "bool option"
  text_panel :: bool
  text_drag :: "drag_state option"
  text_entries :: "nat \<rightharpoonup> (real \<times> real \<times> pystr)"
  redact_overlay :: "redact_state option"
  canvas_items :: "(nat \<times> item) list"
  next_item :: nat
  canvas_width :: int
  canvas_height :: int
  font_family :: pystr
  font_size :: int
  text_color :: pystr

section \<open>Coordinate mapper\<close>

text \<open>
  \<^verbatim>\<open>_canvas_to_pdf_point\<close>. \<^verbatim>\<open>self.pdf_document[page_idx]\<close> raises IndexError past the
  last page, \<^verbatim>\<open>self._page_photo.width()\<close> raises AttributeError on \<^verbatim>\<open>None\<close>, and the two
  divisions raise ZeroDivisionError on an image of width or height 0.
\<close>

definition canvas_to_pdf_point :: "viewer \<Rightarrow> nat \<Rightarrow> real \<Rightarrow> real \<Rightarrow> py_error + (real \<times> real)" where
  "canvas_to_pdf_point v page_idx canvas_x canvas_y =
    (if length (pdf_document v) \<le> page_idx then Inl IndexError
     else
       let pdf_width = fst (pdf_document v ! page_idx);
           pdf_height = snd (pdf_document v ! page_idx)
       in case page_photo v of
            NoAttr \<Rightarrow> Inr (canvas_x, pdf_height - canvas_y)
          | PyNone \<Rightarrow> Inl AttributeError
          | PhotoImage display_width display_height \<Rightarrow>
              let (rel_x, rel_y) =
                (if fit_to_window v then
                   let img_x_offset = real_of_int (canvas_width v - display_width) / 2;
                       img_y_offset = real_of_int (canvas_height v - display_height) / 2;
                       rel_x = canvas_x - img_x_offset;
                       rel_y = canvas_y - img_y_offset
                   in if rel_x < 0 \<or> rel_x > real_of_int display_width
                         \<or> rel_y < 0 \<or> rel_y > real_of_int display_height
                      then (max 0 (min (real_of_int display_width) rel_x),
                            max 0 (min (real_of_int display_height) rel_y))
                      else (rel_x, rel_y)
                 else (canvas_x, canvas_y))
              in if display_width = 0 then Inl ZeroDivisionError
                 else if display_height = 0 then Inl ZeroDivisionError
                 else
                   let scale_x = pdf_width / real_of_int display_width;
                       scale_y = pdf_height / real_of_int display_height;
                       pdf_x = rel_x * scale_x;
                       pdf_y = rel_y * scale_y;
                       pdf_y_flipped = pdf_height - pdf_y
                   in Inr (pdf_x, pdf_y_flipped))"

text \<open>\<^verbatim>\<open>_canvas_rect_to_pdf_rect\<close>: two point mappings, then min and max per axis.\<close>

definition canvas_rect_to_pdf_rect ::
  "viewer \<Rightarrow> nat \<Rightarrow> real \<Rightarrow> real \<Rightarrow> real \<Rightarrow> real \<Rightarrow> py_error + rect" where
  "canvas_rect_to_pdf_rect v page_idx x0 y0 x1 y1 =
    (case canvas_to_pdf_point v page_idx x0 y0 of
       Inl e \<Rightarrow> Inl e
     | Inr pdf_p0 \<Rightarrow>
        (case canvas_to_pdf_point v page_idx x1 y1 of
           Inl e \<Rightarrow> Inl e
         | Inr pdf_p1 \<Rightarrow>
             Inr (min (fst pdf_p0) (fst pdf_p1), min (snd pdf_p0) (snd pdf_p1),
                  max (fst pdf_p0) (fst pdf_p1), max (snd pdf_p0) (snd pdf_p1))))"

section \<open>The libraries around the viewer\<close>

text \<open>
  What the viewer gets from PyMuPDF, Pillow, Tk and the Python runtime is not part of
  the repository; it is a parameter of the model:
  \<^item> \<open>render_raises z page\<close>: whether making the image of a page at zoom \<open>z\<close>
    (\<^verbatim>\<open>get_pixmap\<close>, the PNG round trip, \<^verbatim>\<open>PhotoImage\<close>) raises;
  \<^item> \<open>pixmap_size z page\<close>: the pixel size of \<^verbatim>\<open>page.get_pixmap(matrix=fitz.Matrix(z, z))\<close>;
  \<^item> \<open>pil_thumbnail size target\<close>: the size of an image after \<^verbatim>\<open>img.thumbnail(target)\<close>;
  \<^item> \<open>text_bbox\<close>: \<^verbatim>\<open>pdf_canvas.bbox(item)\<close> of an existing item (font metrics);
  \<^item> \<open>int16\<close>: Python's \<^verbatim>\<open>int(s, 16)\<close>, \<open>None\<close> where it raises ValueError;
  \<^item> \<open>insert_text_raises fontname td\<close>: whether \<^verbatim>\<open>page.insert_text\<close> raises for this
    annotation with this font (\<open>None\<close>: the default font);
  \<^item> \<open>copy_raises\<close>: whether \<^verbatim>\<open>fitz.open()\<close> or \<^verbatim>\<open>out.insert_pdf(src)\<close> raises;
  \<^item> \<open>draw_rect_raises r\<close>: whether \<^verbatim>\<open>page.draw_rect\<close> raises for this rectangle;
  \<^item> \<open>save_raises\<close>: whether \<^verbatim>\<open>out.save(target_path)\<close> raises.
\<close>

record env =
  render_raises :: "real \<Rightarrow> real \<times> real \<Rightarrow> bool"
  pixmap_size :: "real \<Rightarrow> real \<times> real \<Rightarrow> int \<times> int"
  pil_thumbnail :: "int \<times> int \<Rightarrow> int \<times> int \<Rightarrow> int \<times> int"
  text_bbox :: "item \<Rightarrow> rect option"
  int16 :: "pystr \<Rightarrow> int option"
  insert_text_raises :: "pystr option \<Rightarrow> text_data \<Rightarrow> bool"
  copy_raises :: bool
  draw_rect_raises :: "rect \<Rightarrow> bool"
  save_raises :: bool

section \<open>The canvas\<close>

fun shape_coords :: "shape \<Rightarrow> real list" where
  "shape_coords (Rectangle x0 y0 x1 y1) = [x0, y0, x1, y1]"
| "shape_coords (Anchor x y) = [x, y]"

text \<open>\<^verbatim>\<open>pdf_canvas.coords(item)\<close> and \<^verbatim>\<open>gettags(item)\<close>: empty for an id that is gone.\<close>

definition canvas_coords :: "viewer \<Rightarrow> nat \<Rightarrow> real list" where
  "canvas_coords v i =
    (case map_of (canvas_items v) i of None \<Rightarrow> [] | Some it \<Rightarrow> shape_coords (shape it))"

definition canvas_gettags :: "viewer \<Rightarrow> nat \<Rightarrow> tag list" where
  "canvas_gettags v i =
    (case map_of (canvas_items v) i of None \<Rightarrow> [] | Some it \<Rightarrow> tags it)"

definition canvas_create :: "item \<Rightarrow> viewer \<Rightarrow> nat \<times> viewer" where
  "canvas_create it v =
    (next_item v,
     v\<lparr>canvas_items := canvas_items v @ [(next_item v, it)], next_item := Suc (next_item v)\<rparr>)"

text \<open>Tk keeps the lower coordinate of a rectangle first on each axis.\<close>

definition rectangle_item :: "tag list \<Rightarrow> real \<Rightarrow> real \<Rightarrow> real \<Rightarrow> real \<Rightarrow> item" where
  "rectangle_item ts x0 y0 x1 y1 =
    \<lparr>tags = ts, shape = Rectangle (min x0 x1) (min y0 y1) (max x0 x1) (max y0 y1)\<rparr>"

definition canvas_delete :: "nat \<Rightarrow> viewer \<Rightarrow> viewer" where
  "canvas_delete i v = v\<lparr>canvas_items := filter (\<lambda>p. fst p \<noteq> i) (canvas_items v)\<rparr>"

definition canvas_delete_withtag :: "tag \<Rightarrow> viewer \<Rightarrow> viewer" where
  "canvas_delete_withtag t v =
    v\<lparr>canvas_items := filter (\<lambda>p. t \<notin> set (tags (snd p))) (canvas_items v)\<rparr>"

text \<open>
  \<^verbatim>\<open>pdf_canvas.coords(item, ...)\<close> with new coordinates: nothing happens for an id that is
  gone; Tk raises TclError when the number of coordinates does not fit the item.
\<close>

definition canvas_set_rect :: "nat \<Rightarrow> real \<Rightarrow> real \<Rightarrow> real \<Rightarrow> real \<Rightarrow> viewer \<Rightarrow> viewer option" where
  "canvas_set_rect i x0 y0 x1 y1 v =
    (case map_of (canvas_items v) i of
       None \<Rightarrow> Some v
     | Some it \<Rightarrow>
        (case shape it of
           Anchor _ _ \<Rightarrow> None
         | Rectangle _ _ _ _ \<Rightarrow>
             Some (v\<lparr>canvas_items :=
               map (\<lambda>p. if fst p = i
                         then (i, (snd p)\<lparr>shape := Rectangle (min x0 x1) (min y0 y1) (max x0 x1) (max y0 y1)\<rparr>)
                         else p) (canvas_items v)\<rparr>)))"

definition canvas_set_anchor :: "nat \<Rightarrow> real \<Rightarrow> real \<Rightarrow> viewer \<Rightarrow> viewer option" where
  "canvas_set_anchor i x y v =
    (case map_of (canvas_items v) i of
       None \<Rightarrow> Some v
     | Some it \<Rightarrow>
        (case shape it of
           Rectangle _ _ _ _ \<Rightarrow> None
         | Anchor _ _ \<Rightarrow>
             Some (v\<lparr>canvas_items :=
               map (\<lambda>p. if fst p = i then (i, (snd p)\<lparr>shape := Anchor x y\<rparr>) else p)
                 (canvas_items v)\<rparr>)))"

definition canvas_bbox :: "env \<Rightarrow> viewer \<Rightarrow> nat \<Rightarrow> rect option" where
  "canvas_bbox E v i =
    (case map_of (canvas_items v) i of None \<Rightarrow> None | Some it \<Rightarrow> text_bbox E it)"

section \<open>Rendering the current page\<close>

text \<open>\<^verbatim>\<open>_restore_redactions\<close>: the rectangles of the current page, drawn anew.\<close>

fun create_rectangles :: "rect list \<Rightarrow> viewer \<Rightarrow> viewer" where
  "create_rectangles [] v = v"
| "create_rectangles ((x0, y0, x1, y1) # rs) v =
     create_rectangles rs (snd (canvas_create (rectangle_item [Redact_overlay] x0 y0 x1 y1) v))"

definition restore_redactions :: "viewer \<Rightarrow> viewer" where
  "restore_redactions v =
    (let v1 = canvas_delete_withtag Redact_overlay v
     in case redactions_by_page v1 (current_page v1) of
          None \<Rightarrow> v1
        | Some rs \<Rightarrow> create_rectangles rs v1)"

text \<open>\<^verbatim>\<open>_render_text\<close> of the dict at address \<open>r\<close>, and \<^verbatim>\<open>_restore_texts\<close>.\<close>

definition render_text :: "nat \<Rightarrow> viewer \<Rightarrow> nat \<times> viewer" where
  "render_text r v =
    canvas_create \<lparr>tags = [Text_overlay, Text_id r],
                   shape = Anchor (td_x (heap v r)) (td_y (heap v r))\<rparr> v"

fun render_texts :: "nat list \<Rightarrow> viewer \<Rightarrow> viewer" where
  "render_texts [] v = v"
| "render_texts (r # rs) v = render_texts rs (snd (render_text r v))"

definition restore_texts :: "viewer \<Rightarrow> viewer" where
  "restore_texts v =
    (let v1 = canvas_delete_withtag Text_overlay v
     in case texts_by_page v1 (current_page v1) of
          None \<Rightarrow> v1
        | Some rs \<Rightarrow> render_texts rs v1)"

text \<open>
  \<^verbatim>\<open>display_page\<close>. The result is the exception raised, if any, and the viewer as it is
  left. On a canvas narrower or lower than 50 pixels the method only re-schedules itself
  (\<^verbatim>\<open>root.after(50, self.display_page)\<close>) and returns: no image is made. An exception
  while the image is made leaves the viewer untouched. Status line and thumbnail
  highlighting are widget decoration and are left out.
\<close>

definition display_page :: "env \<Rightarrow> viewer \<Rightarrow> py_error option \<times> viewer" where
  "display_page E v =
    (if length (pdf_document v) \<le> current_page v then (Some IndexError, v)
     else
       let page = pdf_document v ! current_page v;
           cw = canvas_width v;
           ch = canvas_height v
       in if cw < 50 \<or> ch < 50 then (None, v)
          else
            let canvas_width = max 50 cw;
                canvas_height = max 50 ch
            in if fit_to_window v then
                 if render_raises E (base_zoom v) page then (Some FitzError, v) else
                 let target_w = max 1 (canvas_width - 40);
                     target_h = max 1 (canvas_height - 40);
                     img = pil_thumbnail E (pixmap_size E (base_zoom v) page) (target_w, target_h);
                     v1 = v\<lparr>page_photo := PhotoImage (fst img) (snd img)\<rparr>;
                     v2 = canvas_delete_withtag Pdf v1;
                     v3 = snd (canvas_create
                            \<lparr>tags = [Pdf],
                             shape = Anchor (real_of_int (canvas_width div 2))
                                            (real_of_int (canvas_height div 2))\<rparr> v2)
                 in (None, restore_texts (restore_redactions v3))
               else
                 if render_raises E (zoom v) page then (Some FitzError, v) else
                 let img = pixmap_size E (zoom v) page;
                     v1 = v\<lparr>page_photo := PhotoImage (fst img) (snd img)\<rparr>;
                     v2 = canvas_delete_withtag Pdf v1;
                     v3 = snd (canvas_create \<lparr>tags = [Pdf], shape = Anchor 0 0\<rparr> v2)
                 in (None, restore_texts (restore_redactions v3)))"

section \<open>Thumbnails\<close>

text \<open>
  \<^verbatim>\<open>thumbnail_cache\<close> is an OrderedDict: an association list, oldest entry first.
  The loop \<^verbatim>\<open>while len(cache) > max: cache.popitem(last=False)\<close> drops entries from the
  front.
\<close>

function evict :: "nat \<Rightarrow> 'a list \<Rightarrow> 'a list" where
  "evict cap xs = (if cap < length xs then evict cap (tl xs) else xs)"
  by pat_completeness auto
termination
  by (relation "measure (\<lambda>(cap, xs). length xs)") auto

definition move_to_end :: "nat \<Rightarrow> (nat \<times> 'a) list \<Rightarrow> (nat \<times> 'a) list" where
  "move_to_end k xs =
    (case map_of xs k of
       None \<Rightarrow> xs
     | Some photo \<Rightarrow> filter (\<lambda>p. fst p \<noteq> k) xs @ [(k, photo)])"

text \<open>
  \<^verbatim>\<open>_ensure_thumb\<close>. \<^verbatim>\<open>self.pdf_document[page_index]\<close> and \<^verbatim>\<open>self._thumb_buttons[page_index]\<close>
  raise IndexError out of range; the second one after the cache has been updated.
\<close>

definition ensure_thumb :: "env \<Rightarrow> nat \<Rightarrow> viewer \<Rightarrow> py_error option \<times> viewer" where
  "ensure_thumb E page_index v =
    (case (case map_of (thumbnail_cache v) page_index of
             Some photo \<Rightarrow>
               Inr (photo, v\<lparr>thumbnail_cache := move_to_end page_index (thumbnail_cache v)\<rparr>)
           | None \<Rightarrow>
               if length (pdf_document v) \<le> page_index then Inl IndexError
               else if render_raises E (1 / 2) (pdf_document v ! page_index) then Inl FitzError
               else
                 let page = pdf_document v ! page_index;
                     photo = pil_thumbnail E (pixmap_size E (1 / 2) page) (140, 180)
                 in Inr (photo,
                      v\<lparr>thumbnail_cache :=
                          evict (max_thumb_cache v) (thumbnail_cache v @ [(page_index, photo)])\<rparr>)) of
       Inl e \<Rightarrow> (Some e, v)
     | Inr (photo, v1) \<Rightarrow>
         if total_pages v1 \<le> page_index then (Some IndexError, v1)
         else (None, v1\<lparr>thumb_photos_by_button := (thumb_photos_by_button v1)(page_index \<mapsto> photo)\<rparr>))"

text \<open>
  One run of \<^verbatim>\<open>_schedule_thumb_batch\<close>: up to \<^verbatim>\<open>_thumb_batch_size = 8\<close> thumbnails; the
  next run is a timer callback. An exception leaves \<^verbatim>\<open>_thumb_batch_idx\<close> as it was.
\<close>

fun ensure_thumbs :: "env \<Rightarrow> nat list \<Rightarrow> viewer \<Rightarrow> py_error option \<times> viewer" where
  "ensure_thumbs E [] v = (None, v)"
| "ensure_thumbs E (i # is) v =
    (case ensure_thumb E i v of
       (Some e, v1) \<Rightarrow> (Some e, v1)
     | (None, v1) \<Rightarrow> ensure_thumbs E is v1)"

definition schedule_thumb_batch :: "env \<Rightarrow> viewer \<Rightarrow> py_error option \<times> viewer" where
  "schedule_thumb_batch E v =
    (if total_pages v \<le> thumb_batch_idx v then (None, v)
     else
       let end = min (thumb_batch_idx v + 8) (total_pages v)
       in case ensure_thumbs E [thumb_batch_idx v ..< end] v of
            (Some e, v1) \<Rightarrow> (Some e, v1)
          | (None, v1) \<Rightarrow> (None, v1\<lparr>thumb_batch_idx := end\<rparr>))"

section \<open>Navigation and zoom\<close>

text \<open>\<^verbatim>\<open>goto_page\<close>, \<^verbatim>\<open>next_page\<close>, \<^verbatim>\<open>prev_page\<close>, \<^verbatim>\<open>zoom_in\<close>, \<^verbatim>\<open>zoom_out\<close>.\<close>

definition goto_page :: "env \<Rightarrow> nat \<Rightarrow> viewer \<Rightarrow> py_error option \<times> viewer" where
  "goto_page E page_num v =
    (if page_num < total_pages v then
       (case ensure_thumb E page_num (v\<lparr>current_page := page_num\<rparr>) of
          (Some e, v1) \<Rightarrow> (Some e, v1)
        | (None, v1) \<Rightarrow> display_page E v1)
     else (None, v))"

definition next_page :: "env \<Rightarrow> viewer \<Rightarrow> py_error option \<times> viewer" where
  "next_page E v =
    (if int (current_page v) < int (total_pages v) - 1
     then goto_page E (current_page v + 1) v else (None, v))"

definition prev_page :: "env \<Rightarrow> viewer \<Rightarrow> py_error option \<times> viewer" where
  "prev_page E v =
    (if 0 < current_page v then goto_page E (current_page v - 1) v else (None, v))"

definition zoom_in :: "env \<Rightarrow> real \<Rightarrow> viewer \<Rightarrow> py_error option \<times> viewer" where
  "zoom_in E step v =
    display_page E (v\<lparr>fit_to_window := False, zoom := min (max_zoom v) (zoom v + step)\<rparr>)"

definition zoom_out :: "env \<Rightarrow> real \<Rightarrow> viewer \<Rightarrow> py_error option \<times> viewer" where
  "zoom_out E step v =
    display_page E (v\<lparr>fit_to_window := False, zoom := max (min_zoom v) (zoom v - step)\<rparr>)"

section \<open>The redaction tool\<close>

text \<open>
  A Python value used as a condition: an item id is true unless it is \<^verbatim>\<open>None\<close> or 0.
\<close>

fun truthy_item :: "nat option \<Rightarrow> nat option" where
  "truthy_item None = None"
| "truthy_item (Some i) = (if i = 0 then None else Some i)"

text \<open>
  The loop \<^verbatim>\<open>for item in items: if tag in gettags(item): ...; return\<close> acts on the first
  item carrying the tag. \<open>items\<close> is what \<^verbatim>\<open>find_overlapping\<close> returned for the event.
\<close>

fun first_tagged :: "viewer \<Rightarrow> tag \<Rightarrow> nat list \<Rightarrow> nat option" where
  "first_tagged v t [] = None"
| "first_tagged v t (i # is) =
     (if t \<in> set (canvas_gettags v i) then Some i else first_tagged v t is)"

text \<open>\<^verbatim>\<open>tuple(coords)\<close> as an element of the redaction store: a 4-tuple for a rectangle.\<close>

fun coords_tuple :: "real list \<Rightarrow> rect option" where
  "coords_tuple [x0, y0, x1, y1] = Some (x0, y0, x1, y1)"
| "coords_tuple _ = None"

text \<open>
  \<^verbatim>\<open>if page in store: if coords in store[page]: store[page].remove(coords)\<close>: the first
  equal entry goes.
\<close>

definition store_remove :: "real list \<Rightarrow> viewer \<Rightarrow> viewer" where
  "store_remove cs v =
    (case redactions_by_page v (current_page v) of
       None \<Rightarrow> v
     | Some rs \<Rightarrow>
        (case coords_tuple cs of
           None \<Rightarrow> v
         | Some r \<Rightarrow>
            if r \<in> set rs
            then v\<lparr>redactions_by_page := (redactions_by_page v)(current_page v \<mapsto> remove1 r rs)\<rparr>
            else v))"

text \<open>\<^verbatim>\<open>action_redact\<close> and \<^verbatim>\<open>deactivate_current_tool\<close> (widget set-up left out).\<close>

definition clear_text_selection :: "viewer \<Rightarrow> viewer" where
  "clear_text_selection v = (canvas_delete_withtag Text_selected v)\<lparr>selected_text := None\<rparr>"

definition deactivate_current_tool :: "viewer \<Rightarrow> viewer" where
  "deactivate_current_tool v =
    (let v1 = clear_text_selection v;
         v2 = (case text_overlay v1 of None \<Rightarrow> v1 | Some _ \<Rightarrow> v1\<lparr>text_overlay := Some False\<rparr>);
         v3 = v2\<lparr>text_panel := False\<rparr>
     in v3\<lparr>redact_overlay := None\<rparr>)"

definition action_redact :: "viewer \<Rightarrow> viewer" where
  "action_redact v =
    v\<lparr>redact_overlay :=
        Some \<lparr>start_x = None, start_y = None, current_item = None, mode = Draw, offset = None\<rparr>\<rparr>"

text \<open>\<^verbatim>\<open>_redact_start\<close>: grab the rectangle under the pointer, or start a new one.\<close>

definition redact_start :: "real \<Rightarrow> real \<Rightarrow> nat list \<Rightarrow> viewer \<Rightarrow> py_error option \<times> viewer" where
  "redact_start ex ey items v =
    (case redact_overlay v of
       None \<Rightarrow> (None, v)
     | Some ro \<Rightarrow>
        (case first_tagged v Redact_overlay items of
           Some item \<Rightarrow>
             let ro1 = ro\<lparr>mode := Move, current_item := Some item\<rparr>
             in (case canvas_coords v item of
                   c0 # c1 # _ \<Rightarrow>
                     (None, v\<lparr>redact_overlay := Some (ro1\<lparr>offset := Some (ex - c0, ey - c1)\<rparr>)\<rparr>)
                 | _ \<Rightarrow> (Some IndexError, v\<lparr>redact_overlay := Some ro1\<rparr>))
         | None \<Rightarrow>
             let (item, v1) = canvas_create (rectangle_item [Redact_overlay] ex ey ex ey) v
             in (None, v1\<lparr>redact_overlay :=
                   Some (ro\<lparr>mode := Draw, start_x := Some ex, start_y := Some ey,
                             current_item := Some item\<rparr>)\<rparr>)))"

text \<open>\<^verbatim>\<open>_redact_right_click\<close>.\<close>

definition redact_right_click :: "real \<Rightarrow> real \<Rightarrow> nat list \<Rightarrow> viewer \<Rightarrow> py_error option \<times> viewer" where
  "redact_right_click ex ey items v =
    (case redact_overlay v of
       None \<Rightarrow> (None, v)
     | Some ro \<Rightarrow>
        (case first_tagged v Redact_overlay items of
           None \<Rightarrow> (None, v)
         | Some item \<Rightarrow>
             let v1 = canvas_delete item (store_remove (canvas_coords v item) v)
             in if current_item ro = Some item
                then (None, v1\<lparr>redact_overlay := Some (ro\<lparr>current_item := None\<rparr>)\<rparr>)
                else (None, v1)))"

text \<open>
  \<^verbatim>\<open>_redact_drag\<close>. In draw mode \<^verbatim>\<open>min(x1, event.x)\<close> raises TypeError while
  \<^verbatim>\<open>start_x\<close> is \<^verbatim>\<open>None\<close>; in move mode the key \<^verbatim>\<open>offset\<close> may be missing (KeyError) and
  \<^verbatim>\<open>coords[2]\<close> raises IndexError for an item that is gone.
\<close>

definition redact_drag :: "real \<Rightarrow> real \<Rightarrow> viewer \<Rightarrow> py_error option \<times> viewer" where
  "redact_drag ex ey v =
    (case redact_overlay v of
       None \<Rightarrow> (None, v)
     | Some ro \<Rightarrow>
        (case truthy_item (current_item ro) of
           None \<Rightarrow> (None, v)
         | Some item \<Rightarrow>
            if mode ro = Draw then
              (case (start_x ro, start_y ro) of
                 (Some x1, Some y1) \<Rightarrow>
                   (case canvas_set_rect item (min x1 ex) (min y1 ey) (max x1 ex) (max y1 ey) v of
                      None \<Rightarrow> (Some TclError, v)
                    | Some v1 \<Rightarrow> (None, v1))
               | _ \<Rightarrow> (Some TypeError, v))
            else
              (case offset ro of
                 None \<Rightarrow> (Some KeyError, v)
               | Some (ox, oy) \<Rightarrow>
                  (case canvas_coords v item of
                     [c0, c1, c2, c3] \<Rightarrow>
                       let w = c2 - c0; h = c3 - c1;
                           new_x = ex - ox; new_y = ey - oy
                       in (case canvas_set_rect item new_x new_y (new_x + w) (new_y + h) v of
                             None \<Rightarrow> (Some TclError, v)
                           | Some v1 \<Rightarrow> (None, v1))
                   | _ \<Rightarrow> (Some IndexError, v)))))"

text \<open>
  \<^verbatim>\<open>_redact_finish\<close>: returns at once unless the mode is \<^verbatim>\<open>"draw"\<close>; a rectangle
  narrower or lower than 5 pixels is deleted, any other is appended to the store.
\<close>

definition redact_finish :: "viewer \<Rightarrow> py_error option \<times> viewer" where
  "redact_finish v =
    (case redact_overlay v of
       None \<Rightarrow> (None, v)
     | Some ro \<Rightarrow>
        if mode ro \<noteq> Draw then (None, v)
        else
          let done = (\<lambda>ro' v'. (None, v'\<lparr>redact_overlay :=
                         Some (ro'\<lparr>start_x := None, start_y := None, mode := Draw\<rparr>)\<rparr>))
          in (case truthy_item (current_item ro) of
                None \<Rightarrow> done ro v
              | Some item \<Rightarrow>
                 (case canvas_coords v item of
                    [c0, c1, c2, c3] \<Rightarrow>
                      if \<bar>c2 - c0\<bar> < 5 \<or> \<bar>c3 - c1\<bar> < 5
                      then done (ro\<lparr>current_item := None\<rparr>) (canvas_delete item v)
                      else
                        let rs = (case redactions_by_page v (current_page v) of
                                    None \<Rightarrow> [] | Some rs \<Rightarrow> rs)
                        in done ro (v\<lparr>redactions_by_page :=
                              (redactions_by_page v)(current_page v \<mapsto> rs @ [(c0, c1, c2, c3)])\<rparr>)
                  | _ \<Rightarrow> (Some IndexError, v))))"

text \<open>
  \<^verbatim>\<open>_adjust_redact\<close> (arrow keys; \<open>dim_h\<close> is \<^verbatim>\<open>dim == "h"\<close>) and \<^verbatim>\<open>_delete_redact\<close>.
  \<^verbatim>\<open>x1, y1, x2, y2 = coords\<close> raises ValueError unless there are four coordinates.
\<close>

definition adjust_redact :: "bool \<Rightarrow> real \<Rightarrow> viewer \<Rightarrow> py_error option \<times> viewer" where
  "adjust_redact dim_h delta v =
    (case redact_overlay v of
       None \<Rightarrow> (None, v)
     | Some ro \<Rightarrow>
        (case truthy_item (current_item ro) of
           None \<Rightarrow> (None, v)
         | Some item \<Rightarrow>
            (case canvas_coords v item of
               [x1, y1, x2, y2] \<Rightarrow>
                 let y2' = (if dim_h then max (y1 + 5) (y2 + delta) else y2);
                     x2' = (if dim_h then x2 else max (x1 + 5) (x2 + delta))
                 in (case canvas_set_rect item x1 y1 x2' y2' v of
                       None \<Rightarrow> (Some TclError, v)
                     | Some v1 \<Rightarrow> (None, v1))
             | _ \<Rightarrow> (Some ValueError, v))))"

definition delete_redact :: "viewer \<Rightarrow> py_error option \<times> viewer" where
  "delete_redact v =
    (case redact_overlay v of
       None \<Rightarrow> (None, v)
     | Some ro \<Rightarrow>
        (case truthy_item (current_item ro) of
           None \<Rightarrow> (None, v)
         | Some item \<Rightarrow>
             let v1 = canvas_delete item (store_remove (canvas_coords v item) v)
             in (None, v1\<lparr>redact_overlay := Some (ro\<lparr>current_item := None\<rparr>)\<rparr>)))"

section \<open>Strings\<close>

text \<open>
  \<^verbatim>\<open>str.strip()\<close> removes the white space of Python 3 (the code points for which
  \<^verbatim>\<open>str.isspace\<close> holds) from both ends. \<^verbatim>\<open>str.lower()\<close> is given for ASCII letters, which
  is all the font names of the program contain. \<^verbatim>\<open>a in b\<close> on strings is \<^const>\<open>sublist\<close>.
\<close>

definition py_isspace :: "nat \<Rightarrow> bool" where
  "py_isspace c \<longleftrightarrow>
     (9 \<le> c \<and> c \<le> 13) \<or> (28 \<le> c \<and> c \<le> 32) \<or> c = 133 \<or> c = 160 \<or> c = 5760
     \<or> (8192 \<le> c \<and> c \<le> 8202) \<or> c = 8232 \<or> c = 8233 \<or> c = 8239 \<or> c = 8287 \<or> c = 12288"

definition py_strip :: "pystr \<Rightarrow> pystr" where
  "py_strip s = rev (dropWhile py_isspace (rev (dropWhile py_isspace s)))"

definition py_lower :: "pystr \<Rightarrow> pystr" where
  "py_lower s = map (\<lambda>c. if 65 \<le> c \<and> c \<le> 90 then c + 32 else c) s"

abbreviation (input) py :: "string \<Rightarrow> pystr" where
  "py s \<equiv> map of_char s"

section \<open>The text tool\<close>

text \<open>\<^verbatim>\<open>self._font_map\<close>: label, Tk family, PyMuPDF font name, in insertion order.\<close>

definition font_map :: "(pystr \<times> pystr \<times> pystr) list" where
  "font_map =
    [(py ''Sans (Helvetica)'', py ''Helvetica'', py ''helv''),
     (py ''Serif (Times)'', py ''Times New Roman'', py ''times''),
     (py ''Mono (Courier)'', py ''Courier New'', py ''cour'')]"

text \<open>\<^verbatim>\<open>self._font_map.get(label, ("Helvetica", "helv"))[0]\<close>.\<close>

definition tk_family_of :: "pystr \<Rightarrow> pystr" where
  "tk_family_of label =
    (case map_of font_map label of None \<Rightarrow> py ''Helvetica'' | Some (tkfam, _) \<Rightarrow> tkfam)"

text \<open>The dashed frame drawn around a selected text, when the item has a bounding box.\<close>

definition draw_selection :: "env \<Rightarrow> nat \<Rightarrow> viewer \<Rightarrow> viewer" where
  "draw_selection E item v =
    (case canvas_bbox E v item of
       None \<Rightarrow> v
     | Some (x0, y0, x1, y1) \<Rightarrow>
         snd (canvas_create (rectangle_item [Text_selected] (x0 - 3) (y0 - 3) (x1 + 3) (y1 + 3)) v))"

text \<open>
  \<^verbatim>\<open>_apply\<close>, the trace callback of the three panel variables: it runs on every write
  to one of them and copies the panel's values into the selected annotation.
\<close>

definition apply_panel :: "env \<Rightarrow> viewer \<Rightarrow> viewer" where
  "apply_panel E v =
    (case selected_text v of
       None \<Rightarrow> v
     | Some (item, td) \<Rightarrow>
        (case text_drag v of
           Some _ \<Rightarrow> v
         | None \<Rightarrow>
            let tk_family = tk_family_of (font_family v);
                d0 = heap v td;
                d1 = (if td_font d0 \<noteq> tk_family then d0\<lparr>td_font := tk_family\<rparr> else d0);
                d2 = (if td_size d1 \<noteq> font_size v then d1\<lparr>td_size := font_size v\<rparr> else d1);
                d3 = (if td_color d2 \<noteq> text_color v then d2\<lparr>td_color := text_color v\<rparr> else d2);
                changed = (td_font d0 \<noteq> tk_family \<or> td_size d0 \<noteq> font_size v
                           \<or> td_color d0 \<noteq> text_color v);
                v1 = v\<lparr>heap := (heap v)(td := d3)\<rparr>
            in if changed then
                 let v2 = clear_text_selection (canvas_delete item v1);
                     (new_item, v3) = render_text td v2;
                     v4 = v3\<lparr>selected_text := Some (new_item, td)\<rparr>
                 in draw_selection E new_item v4
               else v1))"

definition set_font_family :: "env \<Rightarrow> pystr \<Rightarrow> viewer \<Rightarrow> viewer" where
  "set_font_family E label v = apply_panel E (v\<lparr>font_family := label\<rparr>)"

definition set_font_size :: "env \<Rightarrow> int \<Rightarrow> viewer \<Rightarrow> viewer" where
  "set_font_size E n v = apply_panel E (v\<lparr>font_size := n\<rparr>)"

definition set_text_color :: "env \<Rightarrow> pystr \<Rightarrow> viewer \<Rightarrow> viewer" where
  "set_text_color E c v = apply_panel E (v\<lparr>text_color := c\<rparr>)"

text \<open>
  \<^verbatim>\<open>_create_text_panel\<close> (the variables and their defaults) and \<^verbatim>\<open>action_write\<close>.
\<close>

definition create_text_panel :: "viewer \<Rightarrow> viewer" where
  "create_text_panel v =
    (if text_panel v then v
     else v\<lparr>text_panel := True, font_family := fst (hd font_map), font_size := 12,
             text_color := py ''#000000''\<rparr>)"

definition action_write :: "viewer \<Rightarrow> viewer" where
  "action_write v = create_text_panel (v\<lparr>text_overlay := Some True, text_drag := None\<rparr>)"

text \<open>
  \<^verbatim>\<open>_select_text\<close>: the three \<^verbatim>\<open>set\<close> calls fire the trace, one after the other; the
  annotation is read again before each.
\<close>

fun first_font_label :: "(pystr \<times> pystr \<times> pystr) list \<Rightarrow> pystr \<Rightarrow> pystr option" where
  "first_font_label [] font = None"
| "first_font_label ((label, tkfam, fitzname) # m) font =
     (if sublist (py_lower tkfam) (py_lower font) then Some label
      else first_font_label m font)"

definition select_text :: "env \<Rightarrow> nat \<Rightarrow> nat \<Rightarrow> viewer \<Rightarrow> viewer" where
  "select_text E item td v =
    (let v1 = (clear_text_selection v)\<lparr>selected_text := Some (item, td)\<rparr>;
         v2 = draw_selection E item v1;
         v3 = (case first_font_label font_map (td_font (heap v2 td)) of
                 None \<Rightarrow> v2
               | Some label \<Rightarrow> set_font_family E label v2);
         v4 = set_font_size E (td_size (heap v3 td)) v3
     in set_text_color E (td_color (heap v4 td)) v4)"

text \<open>
  The annotation a canvas item stands for: the first \<^verbatim>\<open>text_id_\<close> tag names a dict, which is
  looked up among the annotations of the current page.
\<close>

fun first_text_id :: "tag list \<Rightarrow> nat option" where
  "first_text_id [] = None"
| "first_text_id (Text_id r # ts) = Some r"
| "first_text_id (_ # ts) = first_text_id ts"

definition find_text_data :: "viewer \<Rightarrow> nat \<Rightarrow> nat option" where
  "find_text_data v item =
    (case first_text_id (canvas_gettags v item) of
       None \<Rightarrow> None
     | Some r \<Rightarrow>
        (case texts_by_page v (current_page v) of
           None \<Rightarrow> None
         | Some rs \<Rightarrow> if r \<in> set rs then Some r else None))"

text \<open>
  \<^verbatim>\<open>_text_click\<close>: on an existing text, select it and start a drag; elsewhere, open an
  Entry whose \<^verbatim>\<open>save_text\<close> closure remembers the click position and the font family.
\<close>

definition text_click :: "env \<Rightarrow> real \<Rightarrow> real \<Rightarrow> nat list \<Rightarrow> viewer \<Rightarrow> viewer" where
  "text_click E ex ey items v =
    (if text_overlay v \<noteq> Some True then v
     else
       case first_tagged v Text_overlay items of
         Some item \<Rightarrow>
          (case find_text_data v item of
             None \<Rightarrow> v
           | Some td \<Rightarrow>
               let v1 = select_text E item td v;
                   (x, y) = (case canvas_coords v1 item of
                               c0 # c1 # _ \<Rightarrow> (c0, c1)
                             | _ \<Rightarrow> (td_x (heap v1 td), td_y (heap v1 td)))
               in v1\<lparr>text_drag :=
                      Some \<lparr>drag_item = item, drag_td = td, dx = ex - x, dy = ey - y\<rparr>\<rparr>)
       | None \<Rightarrow>
           let tk_family = tk_family_of (font_family v);
               (text_window, v1) = canvas_create \<lparr>tags = [], shape = Anchor ex ey\<rparr> v
           in v1\<lparr>text_entries := (text_entries v1)(text_window \<mapsto> (ex, ey, tk_family))\<rparr>)"

text \<open>
  \<^verbatim>\<open>save_text\<close>, the Return key in the Entry of window \<open>text_window\<close> holding \<open>text\<close>.
  The \<^verbatim>\<open>'id'\<close> entry is the identity of the page's list, which the page index names.
\<close>

definition save_text :: "nat \<Rightarrow> pystr \<Rightarrow> viewer \<Rightarrow> viewer" where
  "save_text text_window text v =
    (case text_entries v text_window of
       None \<Rightarrow> v
     | Some (ex, ey, tk_family) \<Rightarrow>
        if py_strip text \<noteq> [] then
          let rs = (case texts_by_page v (current_page v) of None \<Rightarrow> [] | Some rs \<Rightarrow> rs);
              text_data = \<lparr>td_x = ex, td_y = ey, td_text = text, td_font = tk_family,
                           td_size = font_size v, td_color = text_color v,
                           td_id = current_page v\<rparr>;
              r = next_ref v;
              v1 = v\<lparr>heap := (heap v)(r := text_data), next_ref := Suc r,
                     texts_by_page := (texts_by_page v)(current_page v \<mapsto> rs @ [r])\<rparr>
          in snd (render_text r (canvas_delete text_window v1))
        else canvas_delete text_window v)"

text \<open>The Escape key in the Entry.\<close>

definition entry_escape :: "nat \<Rightarrow> viewer \<Rightarrow> viewer" where
  "entry_escape text_window v =
    (case text_entries v text_window of None \<Rightarrow> v | Some _ \<Rightarrow> canvas_delete text_window v)"

text \<open>
  \<^verbatim>\<open>_delete_text\<close>: \<^verbatim>\<open>in\<close> and \<^verbatim>\<open>list.remove\<close> compare the dicts by value, so the first
  annotation of the page that equals the given one is removed.
\<close>

fun remove_equal :: "(nat \<Rightarrow> text_data) \<Rightarrow> text_data \<Rightarrow> nat list \<Rightarrow> nat list" where
  "remove_equal h d [] = []"
| "remove_equal h d (r # rs) = (if h r = d then rs else r # remove_equal h d rs)"

definition delete_text :: "nat \<Rightarrow> nat \<Rightarrow> viewer \<Rightarrow> viewer" where
  "delete_text item td v =
    (let v1 = (if item \<noteq> 0 then canvas_delete item v else v)
     in case texts_by_page v1 (current_page v1) of
          None \<Rightarrow> v1
        | Some rs \<Rightarrow>
            v1\<lparr>texts_by_page :=
                 (texts_by_page v1)(current_page v1 \<mapsto> remove_equal (heap v1) (heap v1 td) rs)\<rparr>)"

definition text_right_click :: "real \<Rightarrow> real \<Rightarrow> nat list \<Rightarrow> viewer \<Rightarrow> viewer" where
  "text_right_click ex ey items v =
    (if text_overlay v \<noteq> Some True then v
     else
       case first_tagged v Text_overlay items of
         None \<Rightarrow> v
       | Some item \<Rightarrow>
          (case find_text_data v item of
             None \<Rightarrow> v
           | Some td \<Rightarrow> clear_text_selection (delete_text item td v)))"

text \<open>\<^verbatim>\<open>_text_drag_move\<close> and \<^verbatim>\<open>_text_drag_drop\<close>.\<close>

definition text_drag_move :: "env \<Rightarrow> real \<Rightarrow> real \<Rightarrow> viewer \<Rightarrow> py_error option \<times> viewer" where
  "text_drag_move E ex ey v =
    (case text_drag v of
       None \<Rightarrow> (None, v)
     | Some d \<Rightarrow>
        if drag_item d = 0 then (None, v)
        else
          (case canvas_set_anchor (drag_item d) (ex - dx d) (ey - dy d) v of
             None \<Rightarrow> (Some TclError, v)
           | Some v1 \<Rightarrow> (None, draw_selection E (drag_item d) (clear_text_selection v1))))"

definition text_drag_drop :: "env \<Rightarrow> viewer \<Rightarrow> viewer" where
  "text_drag_drop E v =
    (case text_drag v of
       None \<Rightarrow> v
     | Some d \<Rightarrow>
        if drag_item d = 0 then v
        else
          let item = drag_item d; td = drag_td d;
              v1 = (case canvas_coords v item of
                      c0 # c1 # _ \<Rightarrow>
                        v\<lparr>heap := (heap v)(td := (heap v td)\<lparr>td_x := c0, td_y := c1\<rparr>)\<rparr>
                    | _ \<Rightarrow> v);
              v2 = (clear_text_selection (v1\<lparr>text_drag := None\<rparr>))\<lparr>selected_text := Some (item, td)\<rparr>
          in draw_selection E item v2)"

section \<open>Export\<close>

text \<open>
  \<^verbatim>\<open>_hex_to_rgb01\<close>: the slices \<^verbatim>\<open>[0:2]\<close>, \<^verbatim>\<open>[2:4]\<close>, \<^verbatim>\<open>[4:6]\<close> are parsed by \<^verbatim>\<open>int(s, 16)\<close>,
  which raises ValueError on anything but a hexadecimal numeral.
\<close>

definition hex_to_rgb01 :: "env \<Rightarrow> pystr \<Rightarrow> py_error + (real \<times> real \<times> real)" where
  "hex_to_rgb01 E hexstr0 =
    (let hexstr1 = dropWhile (\<lambda>c. c = 35) (py_strip hexstr0);
         hexstr = (if length hexstr1 = 3 then concat (map (\<lambda>ch. [ch, ch]) hexstr1) else hexstr1)
     in case int16 E (take 2 hexstr) of
          None \<Rightarrow> Inl ValueError
        | Some r \<Rightarrow>
           (case int16 E (take 2 (drop 2 hexstr)) of
              None \<Rightarrow> Inl ValueError
            | Some g \<Rightarrow>
               (case int16 E (take 2 (drop 4 hexstr)) of
                  None \<Rightarrow> Inl ValueError
                | Some b \<Rightarrow>
                    Inr (real_of_int r / 255, real_of_int g / 255, real_of_int b / 255))))"

text \<open>\<^verbatim>\<open>_fitz_font_from_tk\<close>.\<close>

fun first_fitz_name :: "(pystr \<times> pystr \<times> pystr) list \<Rightarrow> pystr \<Rightarrow> pystr option" where
  "first_fitz_name [] tk_family = None"
| "first_fitz_name ((label, tkfam, fitzname) # m) tk_family =
     (if sublist (py_lower tkfam) (py_lower tk_family) then Some fitzname
      else first_fitz_name m tk_family)"

definition fitz_font_from_tk :: "pystr \<Rightarrow> pystr" where
  "fitz_font_from_tk tk_family =
    (case first_fitz_name font_map tk_family of
       Some fitzname \<Rightarrow> fitzname
     | None \<Rightarrow>
        let name = py_lower tk_family
        in if sublist (py ''time'') name \<or> sublist (py ''georgia'') name \<or> sublist (py ''serif'') name
           then py ''times''
           else if sublist (py ''cour'') name \<or> sublist (py ''mono'') name then py ''cour''
           else py ''helv'')"

text \<open>
  The exported document: per page, the rectangles drawn by \<^verbatim>\<open>page.draw_rect\<close> and the
  texts put by \<^verbatim>\<open>page.insert_text\<close> (\<open>op_fontname = None\<close>: the call without a font name).
\<close>

record text_op =
  op_x :: real
  op_y :: real
  op_text :: pystr
  op_fontsize :: int
  op_fontname :: "pystr option"
  op_color :: "real \<times> real \<times> real"

record out_page =
  drawn_rects :: "rect list"
  inserted_texts :: "text_op list"

text \<open>
  The loop over the redaction rectangles of page \<open>page_idx\<close>. It maps each rectangle
  with \<^verbatim>\<open>_canvas_rect_to_pdf_rect\<close> on the viewer as it is; it does not touch the viewer.
\<close>

fun export_redactions :: "env \<Rightarrow> viewer \<Rightarrow> nat \<Rightarrow> rect list \<Rightarrow> py_error + rect list" where
  "export_redactions E v page_idx [] = Inr []"
| "export_redactions E v page_idx ((x0, y0, x1, y1) # rs) =
    (case canvas_rect_to_pdf_rect v page_idx x0 y0 x1 y1 of
       Inl e \<Rightarrow> Inl e
     | Inr r \<Rightarrow>
        if draw_rect_raises E r then Inl FitzError
        else
          (case export_redactions E v page_idx rs of
             Inl e \<Rightarrow> Inl e
           | Inr out \<Rightarrow> Inr (r # out)))"

text \<open>
  One round of the loop over the text annotations: show page \<open>page_idx\<close> if it is not the
  current one, map the position, insert the text (with the mapped font, then without a
  font, then not at all), and show the old page again.
\<close>

definition export_text :: "env \<Rightarrow> nat \<Rightarrow> nat \<Rightarrow> viewer \<Rightarrow> (py_error + text_op option) \<times> viewer" where
  "export_text E page_idx td v =
    (let old_page = current_page v
     in case (if page_idx \<noteq> current_page v
              then display_page E (v\<lparr>current_page := page_idx\<rparr>) else (None, v)) of
          (Some e, v1) \<Rightarrow> (Inl e, v1)
        | (None, v1) \<Rightarrow>
           (case canvas_to_pdf_point v1 page_idx (td_x (heap v1 td)) (td_y (heap v1 td)) of
              Inl e \<Rightarrow> (Inl e, v1)
            | Inr (pdf_x, pdf_y) \<Rightarrow>
               let font_size = td_size (heap v1 td);
                   pdf_y_baseline = pdf_y + real_of_int font_size * (8 / 10)
               in (case hex_to_rgb01 E (td_color (heap v1 td)) of
                     Inl e \<Rightarrow> (Inl e, v1)
                   | Inr color \<Rightarrow>
                      let fontname = fitz_font_from_tk (td_font (heap v1 td));
                          text_op = \<lparr>op_x = pdf_x, op_y = pdf_y_baseline,
                                     op_text = td_text (heap v1 td), op_fontsize = font_size,
                                     op_fontname = Some fontname, op_color = color\<rparr>;
                          done =
                            (if \<not> insert_text_raises E (Some fontname) (heap v1 td)
                             then Some text_op
                             else if \<not> insert_text_raises E None (heap v1 td)
                             then Some (text_op\<lparr>op_fontname := None\<rparr>)
                             else None)
                      in if old_page \<noteq> page_idx then
                           (case display_page E (v1\<lparr>current_page := old_page\<rparr>) of
                              (Some e, v2) \<Rightarrow> (Inl e, v2)
                            | (None, v2) \<Rightarrow> (Inr done, v2))
                         else (Inr done, v1))))"

fun export_texts :: "env \<Rightarrow> nat \<Rightarrow> nat list \<Rightarrow> viewer \<Rightarrow> (py_error + text_op list) \<times> viewer" where
  "export_texts E page_idx [] v = (Inr [], v)"
| "export_texts E page_idx (td # tds) v =
    (case export_text E page_idx td v of
       (Inl e, v1) \<Rightarrow> (Inl e, v1)
     | (Inr done, v1) \<Rightarrow>
        (case export_texts E page_idx tds v1 of
           (Inl e, v2) \<Rightarrow> (Inl e, v2)
         | (Inr out, v2) \<Rightarrow> (Inr (case done of None \<Rightarrow> out | Some t \<Rightarrow> t # out), v2)))"

text \<open>The body of \<^verbatim>\<open>for page_idx in range(len(out))\<close> for one page.\<close>

definition export_page :: "env \<Rightarrow> nat \<Rightarrow> viewer \<Rightarrow> (py_error + out_page) \<times> viewer" where
  "export_page E page_idx v =
    (case (case redactions_by_page v page_idx of
             None \<Rightarrow> Inr []
           | Some rs \<Rightarrow> export_redactions E v page_idx rs) of
       Inl e \<Rightarrow> (Inl e, v)
     | Inr rects \<Rightarrow>
        (case (case texts_by_page v page_idx of
                 None \<Rightarrow> (Inr [], v)
               | Some tds \<Rightarrow> export_texts E page_idx tds v) of
           (Inl e, v1) \<Rightarrow> (Inl e, v1)
         | (Inr texts, v1) \<Rightarrow> (Inr \<lparr>drawn_rects = rects, inserted_texts = texts\<rparr>, v1)))"

fun export_pages :: "env \<Rightarrow> nat list \<Rightarrow> viewer \<Rightarrow> (py_error + out_page list) \<times> viewer" where
  "export_pages E [] v = (Inr [], v)"
| "export_pages E (page_idx # ps) v =
    (case export_page E page_idx v of
       (Inl e, v1) \<Rightarrow> (Inl e, v1)
     | (Inr pg, v1) \<Rightarrow>
        (case export_pages E ps v1 of
           (Inl e, v2) \<Rightarrow> (Inl e, v2)
         | (Inr out, v2) \<Rightarrow> (Inr (pg # out), v2)))"

text \<open>
  \<^verbatim>\<open>_export_with_overlays\<close>: the exception raised or the document saved, and the viewer as
  it is left.
\<close>

definition export_with_overlays :: "env \<Rightarrow> viewer \<Rightarrow> (py_error + out_page list) \<times> viewer" where
  "export_with_overlays E v =
    (if copy_raises E then (Inl FitzError, v)
     else
       case export_pages E [0 ..< length (pdf_document v)] v of
         (Inl e, v1) \<Rightarrow> (Inl e, v1)
       | (Inr out, v1) \<Rightarrow> if save_raises E then (Inl SaveError, v1) else (Inr out, v1))"

section \<open>The session\<close>

text \<open>
  \<^verbatim>\<open>ModernPDFViewer.__init__\<close> on a document that has been opened, with the canvas size Tk
  reports at that moment: the attribute assignments, the first batch of thumbnails
  (from \<^verbatim>\<open>create_seamless_layout\<close>) and \<^verbatim>\<open>display_page\<close>.
\<close>

definition blank_text :: text_data where
  "blank_text = \<lparr>td_x = 0, td_y = 0, td_text = [], td_font = [], td_size = 0, td_color = [],
                 td_id = 0\<rparr>"

definition init_fields :: "(real \<times> real) list \<Rightarrow> int \<Rightarrow> int \<Rightarrow> viewer" where
  "init_fields doc cw ch =
    \<lparr>pdf_document = doc, total_pages = length doc, current_page = 0, page_photo = PyNone,
     thumbnail_cache = [], max_thumb_cache = 200, thumb_photos_by_button = Map.empty,
     thumb_batch_idx = 0, base_zoom = 3 / 2, zoom = 3 / 2, min_zoom = 4 / 10, max_zoom = 6,
     fit_to_window = True, redactions_by_page = Map.empty, texts_by_page = Map.empty,
     heap = (\<lambda>_. blank_text), next_ref = 0, selected_text = None, text_overlay = None,
     text_panel = False, text_drag = None, text_entries = Map.empty, redact_overlay = None,
     canvas_items = [], next_item = 1, canvas_width = cw, canvas_height = ch,
     font_family = [], font_size = 0, text_color = []\<rparr>"

definition viewer_init :: "env \<Rightarrow> (real \<times> real) list \<Rightarrow> int \<Rightarrow> int \<Rightarrow> py_error option \<times> viewer" where
  "viewer_init E doc cw ch =
    (case schedule_thumb_batch E (init_fields doc cw ch) of
       (Some e, v) \<Rightarrow> (Some e, v)
     | (None, v) \<Rightarrow> display_page E v)"

text \<open>
  What the event loop can call afterwards. Pointer events carry the item list that
  \<^verbatim>\<open>find_overlapping\<close> returns for them. \<open>Activate_redact\<close> and \<open>Activate_write\<close> are the
  action rows switching a tool on (\<^verbatim>\<open>deactivate_current_tool\<close>, then the action);
  \<open>Deactivate\<close> is any row or key switching the tool off.
\<close>

datatype event =
    Configure int int
  | Timer_display
  | Timer_thumbs
  | Goto nat
  | Next_page
  | Prev_page
  | Zoom_in real
  | Zoom_out real
  | Activate_redact
  | Activate_write
  | Deactivate
  | Redact_start real real "nat list"
  | Redact_drag real real
  | Redact_finish
  | Redact_right_click real real "nat list"
  | Adjust_redact bool real
  | Delete_redact
  | Text_click real real "nat list"
  | Text_right_click real real "nat list"
  | Text_drag_move real real
  | Text_drag_drop
  | Save_text nat pystr
  | Entry_escape nat
  | Set_font_family pystr
  | Set_font_size int
  | Set_text_color pystr
  | Share_save

text \<open>
  One callback, run to completion. An exception ends the callback (Tk reports it, the
  save dialog shows it) and the viewer stays as the callback left it.
\<close>

fun step :: "env \<Rightarrow> event \<Rightarrow> viewer \<Rightarrow> viewer" where
  "step E (Configure w h) v =
     (let v1 = v\<lparr>canvas_width := w, canvas_height := h\<rparr>
      in if fit_to_window v1 then snd (display_page E v1) else v1)"
| "step E Timer_display v = snd (display_page E v)"
| "step E Timer_thumbs v = snd (schedule_thumb_batch E v)"
| "step E (Goto n) v = snd (goto_page E n v)"
| "step E Next_page v = snd (next_page E v)"
| "step E Prev_page v = snd (prev_page E v)"
| "step E (Zoom_in s) v = snd (zoom_in E s v)"
| "step E (Zoom_out s) v = snd (zoom_out E s v)"
| "step E Activate_redact v = action_redact (deactivate_current_tool v)"
| "step E Activate_write v = action_write (deactivate_current_tool v)"
| "step E Deactivate v = deactivate_current_tool v"
| "step E (Redact_start x y items) v = snd (redact_start x y items v)"
| "step E (Redact_drag x y) v = snd (redact_drag x y v)"
| "step E Redact_finish v = snd (redact_finish v)"
| "step E (Redact_right_click x y items) v = snd (redact_right_click x y items v)"
| "step E (Adjust_redact dim_h delta) v = snd (adjust_redact dim_h delta v)"
| "step E Delete_redact v = snd (delete_redact v)"
| "step E (Text_click x y items) v = text_click E x y items v"
| "step E (Text_right_click x y items) v = text_right_click x y items v"
| "step E (Text_drag_move x y) v = snd (text_drag_move E x y v)"
| "step E Text_drag_drop v = text_drag_drop E v"
| "step E (Save_text w text) v = save_text w text v"
| "step E (Entry_escape w) v = entry_escape w v"
| "step E (Set_font_family label) v = set_font_family E label v"
| "step E (Set_font_size n) v = set_font_size E n v"
| "step E (Set_text_color c) v = set_text_color E c v"
| "step E Share_save v = snd (export_with_overlays E v)"

fun run :: "env \<Rightarrow> event list \<Rightarrow> viewer \<Rightarrow> viewer" where
  "run E [] v = v"
| "run E (ev # evs) v = run E evs (step E ev v)"

text \<open>The viewers a session can be in.\<close>

inductive reachable :: "env \<Rightarrow> viewer \<Rightarrow> bool" for E :: env where
  init: "viewer_init E doc cw ch = (None, v) \<Longrightarrow> reachable E v"
| step: "reachable E v \<Longrightarrow> reachable E (step E ev v)"

section \<open>An example session\<close>

text \<open>
  One concrete environment, to run the model on concrete inputs: pixmaps are the page
  size times the zoom, rounded up; \<^verbatim>\<open>thumbnail\<close> shrinks an image that does not fit,
  keeping its aspect ratio; a text is 40 by 12 pixels; \<^verbatim>\<open>int(s, 16)\<close> reads hexadecimal
  digits; PyMuPDF never fails. The document has a portrait and a landscape page.
\<close>

definition hex_digit :: "nat \<Rightarrow> int option" where
  "hex_digit c =
    (if 48 \<le> c \<and> c \<le> 57 then Some (int c - 48)
     else if 65 \<le> c \<and> c \<le> 70 then Some (int c - 55)
     else if 97 \<le> c \<and> c \<le> 102 then Some (int c - 87)
     else None)"

fun hex_value :: "int \<Rightarrow> pystr \<Rightarrow> int option" where
  "hex_value acc [] = Some acc"
| "hex_value acc (c # cs) =
     (case hex_digit c of None \<Rightarrow> None | Some d \<Rightarrow> hex_value (16 * acc + d) cs)"

definition example_env :: env where
  "example_env =
    \<lparr>render_raises = (\<lambda>_ _. False),
     pixmap_size = (\<lambda>z (w, h). (\<lceil>z * w\<rceil>, \<lceil>z * h\<rceil>)),
     pil_thumbnail = (\<lambda>(w, h) (tw, th).
        if w \<le> tw \<and> h \<le> th then (w, h)
        else if tw * h \<le> th * w then (tw, max 1 ((h * tw) div w))
        else (max 1 ((w * th) div h), th)),
     text_bbox = (\<lambda>it. case shape it of
                          Anchor x y \<Rightarrow> Some (x, y, x + 40, y + 12)
                        | Rectangle x0 y0 x1 y1 \<Rightarrow> Some (x0, y0, x1, y1)),
     int16 = (\<lambda>s. if s = [] then None else hex_value 0 s),
     insert_text_raises = (\<lambda>_ _. False),
     copy_raises = False,
     draw_rect_raises = (\<lambda>_. False),
     save_raises = False\<rparr>"

definition two_pages :: "(real \<times> real) list" where
  "two_pages = [(612, 792), (792, 612)]"

text \<open>The viewer after start-up in a window whose canvas is 540 by 700 pixels.\<close>

definition example_viewer :: viewer where
  "example_viewer = snd (viewer_init example_env two_pages 540 700)"


text \<open>
  The viewer after start-up while the canvas has not been laid out (Tk reports 1 by 1):
  \<^verbatim>\<open>display_page\<close> has returned without making an image.
\<close>

definition unrendered_viewer :: viewer where
  "unrendered_viewer = snd (viewer_init example_env two_pages 1 1)"

section \<open>Invariants\<close>

text \<open>The thumbnail cache within its capacity of 200, one entry per page index.\<close>

definition cache_ok :: "viewer \<Rightarrow> bool" where
  "cache_ok v \<longleftrightarrow> max_thumb_cache v = 200 \<and> length (thumbnail_cache v) \<le> 200
     \<and> distinct (map fst (thumbnail_cache v))"

text \<open>The part of the viewer the thumbnail cache lives in.\<close>

definition cache_part :: "viewer \<Rightarrow> (nat \<times> (int \<times> int)) list \<times> nat" where
  "cache_part v = (thumbnail_cache v, max_thumb_cache v)"

text \<open>
  Two viewers that differ at most in what showing a page writes: the current page, the
  page image and the canvas.
\<close>

definition only_view_changed :: "viewer \<Rightarrow> viewer \<Rightarrow> bool" where
  "only_view_changed v v' \<longleftrightarrow>
     v' = v\<lparr>current_page := current_page v', page_photo := page_photo v',
            canvas_items := canvas_items v', next_item := next_item v'\<rparr>"

text \<open>
  A redaction rectangle at least 5 pixels wide and high, and a redaction store holding
  only such rectangles.
\<close>

fun nondegenerate :: "rect \<Rightarrow> bool" where
  "nondegenerate (x0, y0, x1, y1) \<longleftrightarrow> 5 \<le> \<bar>x1 - x0\<bar> \<and> 5 \<le> \<bar>y1 - y0\<bar>"

definition redactions_ok :: "viewer \<Rightarrow> bool" where
  "redactions_ok v \<longleftrightarrow> (\<forall>p rs. redactions_by_page v p = Some rs \<longrightarrow> (\<forall>r\<in>set rs. nondegenerate r))"

text \<open>
  Redacting in the example session. The first rectangle drawn gets the canvas id 2
  (the page image is item 1). \<open>drawing_viewer\<close>: the pointer has been dragged from
  (100, 100) to (200, 150) and is still down; \<open>tiny_drawing_viewer\<close>: the same with a
  rectangle 2 pixels wide; \<open>redacted_viewer\<close>: the button has been released.
  \<open>moved_viewer\<close>: the stored rectangle has then been grabbed at (120, 120) and dropped at
  (220, 170); \<open>nudged_viewer\<close>: it has been widened by the Right key instead.
\<close>

definition drawing_viewer :: viewer where
  "drawing_viewer =
    run example_env [Activate_redact, Redact_start 100 100 [], Redact_drag 200 150] example_viewer"

definition tiny_drawing_viewer :: viewer where
  "tiny_drawing_viewer =
    run example_env [Activate_redact, Redact_start 10 10 [], Redact_drag 12 40] example_viewer"

definition redacted_viewer :: viewer where
  "redacted_viewer = step example_env Redact_finish drawing_viewer"

definition moved_viewer :: viewer where
  "moved_viewer =
    run example_env [Redact_start 120 120 [2], Redact_drag 220 170, Redact_finish] redacted_viewer"

definition nudged_viewer :: viewer where
  "nudged_viewer = step example_env (Adjust_redact False 5) redacted_viewer"

text \<open>
  The text of the annotation at an address, and a text store whose annotations all have a
  text that is not empty after \<^verbatim>\<open>strip()\<close>.
\<close>

definition text_of :: "viewer \<Rightarrow> nat \<Rightarrow> pystr" where
  "text_of v r = td_text (heap v r)"

definition texts_ok :: "viewer \<Rightarrow> bool" where
  "texts_ok v \<longleftrightarrow>
     (\<forall>p rs. texts_by_page v p = Some rs \<longrightarrow> (\<forall>r\<in>set rs. py_strip (text_of v r) \<noteq> []))"

text \<open>
  Writing in the example session: the text tool is switched on and a click at (50, 50)
  on the empty page has opened an Entry, the canvas window 2.
\<close>

definition writing_viewer :: viewer where
  "writing_viewer = run example_env [Activate_write, Text_click 50 50 []] example_viewer"

text \<open>
  Overlays on the second page of the example session: the viewer goes to page 1, a
  rectangle is drawn from (100, 200) to (200, 250), and the text \<^verbatim>\<open>Hi\<close> is put at
  (100, 200) (its Entry is the canvas window 4). \<open>shown_page1\<close> still shows page 1;
  \<open>shown_page0\<close> has gone back to page 0.
\<close>

definition page1_viewer :: viewer where
  "page1_viewer = step example_env (Goto 1) example_viewer"

definition page1_redacted :: viewer where
  "page1_redacted =
    run example_env [Activate_redact, Redact_start 100 200 [], Redact_drag 200 250,
      Redact_finish] page1_viewer"

definition shown_page1 :: viewer where
  "shown_page1 =
    run example_env [Activate_write, Text_click 100 200 [], Save_text 4 [72, 105]] page1_redacted"

definition shown_page0 :: viewer where
  "shown_page0 = step example_env (Goto 0) shown_page1"

section \<open>Properties of the coordinate mapper\<close>

text \<open>
  The test for a pointer outside the image is made on both axes at once, but a
  coordinate inside its range is left alone by \<open>max 0 (min w _)\<close>: the clamp works per axis.
\<close>

lemma clamp_joint:
  "(if rx < 0 \<or> rx > w \<or> ry < 0 \<or> ry > h then (max 0 (min w rx), max 0 (min h ry)) else (rx, ry))
   = (max 0 (min w rx), max 0 (min h (ry::real)))" for rx w :: real
  by (simp add: max_def min_def)

lemma point_eq:
  "canvas_to_pdf_point v p x y =
    (if length (pdf_document v) \<le> p then Inl IndexError
     else case page_photo v of
        NoAttr \<Rightarrow> Inr (x, snd (pdf_document v ! p) - y)
      | PyNone \<Rightarrow> Inl AttributeError
      | PhotoImage dw dh \<Rightarrow>
          if dw = 0 \<or> dh = 0 then Inl ZeroDivisionError
          else Inr ((if fit_to_window v
                     then max 0 (min (real_of_int dw) (x - real_of_int (canvas_width v - dw) / 2))
                     else x) * (fst (pdf_document v ! p) / real_of_int dw),
                    snd (pdf_document v ! p) -
                    (if fit_to_window v
                     then max 0 (min (real_of_int dh) (y - real_of_int (canvas_height v - dh) / 2))
                     else y) * (snd (pdf_document v ! p) / real_of_int dh)))"
  unfolding canvas_to_pdf_point_def Let_def clamp_joint
  by (simp split: photo_attr.split)

lemmas session_defs = viewer_init_def two_pages_def init_fields_def schedule_thumb_batch_def
  ensure_thumb_def example_env_def display_page_def Let_def canvas_delete_withtag_def
  canvas_create_def restore_texts_def restore_redactions_def upt_rec example_viewer_def

lemma example_viewer_geometry:
  "pdf_document example_viewer = [(612, 792), (792, 612)]"
  "page_photo example_viewer = PhotoImage 500 647"
  "fit_to_window example_viewer"
  "canvas_width example_viewer = 540"
  "canvas_height example_viewer = 700"
  "current_page example_viewer = 0"
  by (simp_all add: session_defs)

text \<open>
  Claim C5. \<^verbatim>\<open>_canvas_rect_to_pdf_rect\<close> gives the same result (rectangle or exception)
  whichever way the two corners of the rectangle are passed: swapped, or as the corners of
  the other diagonal. A rectangle it returns has its lower coordinate first on each axis.
\<close>

theorem canvas_rect_to_pdf_rect_corner_order:
  "canvas_rect_to_pdf_rect v p x0 y0 x1 y1 = canvas_rect_to_pdf_rect v p x1 y1 x0 y0
   \<and> canvas_rect_to_pdf_rect v p x0 y0 x1 y1 = canvas_rect_to_pdf_rect v p x0 y1 x1 y0
   \<and> canvas_rect_to_pdf_rect v p x0 y0 x1 y1 = canvas_rect_to_pdf_rect v p x1 y0 x0 y1
   \<and> (\<forall>a b c d. canvas_rect_to_pdf_rect v p x0 y0 x1 y1 = Inr (a, b, c, d) \<longrightarrow> a \<le> c \<and> b \<le> d)"
proof -
  have ordered: "\<forall>a b c d. canvas_rect_to_pdf_rect v p x0 y0 x1 y1 = Inr (a, b, c, d) \<longrightarrow> a \<le> c \<and> b \<le> d"
    by (auto simp: canvas_rect_to_pdf_rect_def split: sum.splits)
  have swaps: "canvas_rect_to_pdf_rect v p x0 y0 x1 y1 = canvas_rect_to_pdf_rect v p x1 y1 x0 y0
   \<and> canvas_rect_to_pdf_rect v p x0 y0 x1 y1 = canvas_rect_to_pdf_rect v p x0 y1 x1 y0
   \<and> canvas_rect_to_pdf_rect v p x0 y0 x1 y1 = canvas_rect_to_pdf_rect v p x1 y0 x0 y1"
    unfolding canvas_rect_to_pdf_rect_def point_eq
    by (simp add: min.commute max.commute split: photo_attr.split)
  from ordered swaps show ?thesis by blast
qed

theorem canvas_rect_to_pdf_rect_corner_order_witness:
  "canvas_rect_to_pdf_rect example_viewer 0 100 100 200 150
     = Inr (2448 / 25, 414612 / 647, 5508 / 25, 454212 / 647)
   \<and> canvas_rect_to_pdf_rect example_viewer 0 200 150 100 100
     = Inr (2448 / 25, 414612 / 647, 5508 / 25, 454212 / 647)
   \<and> (2448 / 25 :: real) \<le> 5508 / 25 \<and> (414612 / 647 :: real) \<le> 454212 / 647"
proof -
  have r: "canvas_rect_to_pdf_rect example_viewer 0 100 100 200 150
      = Inr (2448 / 25, 414612 / 647, 5508 / 25, 454212 / 647)"
    by (simp add: canvas_rect_to_pdf_rect_def point_eq example_viewer_geometry)
  from canvas_rect_to_pdf_rect_corner_order[of example_viewer 0 100 100 200 150] r
  show ?thesis by simp
qed


text \<open>
  Claim C4. In fit-to-window mode, with a display image of positive size centred in the
  canvas, a pixel inside the image is mapped by subtracting the offset, scaling each axis
  and flipping the Y axis. On a page of positive size the pixel is recovered exactly from
  its page point (with real numbers; float rounding is not modelled), so the mapping is
  invertible on such pixels.
\<close>

theorem canvas_to_pdf_point_fit_in_bounds:
  assumes "fit_to_window v"
    and "page_photo v = PhotoImage dw dh"
    and "p < length (pdf_document v)"
    and "pdf_document v ! p = (pw, ph)"
    and "0 < dw" and "0 < dh"
    and "ox = real_of_int (canvas_width v - dw) / 2"
    and "oy = real_of_int (canvas_height v - dh) / 2"
    and "0 \<le> x - ox" and "x - ox \<le> real_of_int dw"
    and "0 \<le> y - oy" and "y - oy \<le> real_of_int dh"
  shows "canvas_to_pdf_point v p x y
           = Inr ((x - ox) * pw / real_of_int dw, ph - (y - oy) * ph / real_of_int dh)
         \<and> (0 < pw \<and> 0 < ph \<longrightarrow>
              (\<forall>X Y. canvas_to_pdf_point v p x y = Inr (X, Y) \<longrightarrow>
                 x = ox + X * real_of_int dw / pw \<and> y = oy + (ph - Y) * real_of_int dh / ph))"
proof -
  have rx: "max 0 (min (real_of_int dw) (x - ox)) = x - ox"
    using assms(9,10) by (simp add: max_def min_def)
  have ry: "max 0 (min (real_of_int dh) (y - oy)) = y - oy"
    using assms(11,12) by (simp add: max_def min_def)
  have "canvas_to_pdf_point v p x y
           = Inr (max 0 (min (real_of_int dw) (x - ox)) * (pw / real_of_int dw),
                  ph - max 0 (min (real_of_int dh) (y - oy)) * (ph / real_of_int dh))"
    using assms(1-6) unfolding assms(7,8) by (simp add: point_eq)
  then have eq: "canvas_to_pdf_point v p x y
           = Inr ((x - ox) * pw / real_of_int dw, ph - (y - oy) * ph / real_of_int dh)"
    unfolding rx ry by simp
  have inv: "x = ox + ((x - ox) * pw / real_of_int dw) * real_of_int dw / pw"
            "y = oy + (ph - (ph - (y - oy) * ph / real_of_int dh)) * real_of_int dh / ph"
    if "0 < pw" "0 < ph"
    using that assms(5,6) by simp_all
  from eq inv show ?thesis by auto
qed

theorem canvas_to_pdf_point_fit_in_bounds_witness:
  "fit_to_window example_viewer \<and> page_photo example_viewer = PhotoImage 500 647
   \<and> (0::nat) < length (pdf_document example_viewer) \<and> pdf_document example_viewer ! 0 = (612, 792)
   \<and> (0::real) \<le> 100 - 20 \<and> (100::real) - 20 \<le> 500 \<and> (0::real) \<le> 100 - 53 / 2 \<and> (100::real) - 53 / 2 \<le> 647
   \<and> canvas_to_pdf_point example_viewer 0 100 100 = Inr (2448 / 25, 454212 / 647)
   \<and> (100::real) = 20 + (2448 / 25) * 500 / 612
   \<and> (100::real) = 53 / 2 + (792 - 454212 / 647) * 647 / 792"
  using canvas_to_pdf_point_fit_in_bounds[of example_viewer 500 647 0 612 792 20 "53 / 2" 100 100]
  by (simp add: example_viewer_geometry)




text \<open>
  Claim C2 fails on the code. The constructor sets \<^verbatim>\<open>_page_photo = None\<close>, so
  \<^verbatim>\<open>hasattr(self, '_page_photo')\<close> holds and the fallback is not taken: while no image has
  been made, \<^verbatim>\<open>self._page_photo.width()\<close> raises AttributeError.
\<close>

theorem canvas_to_pdf_point_no_raster_raises:
  "fst (viewer_init example_env two_pages 1 1) = None
   \<and> page_photo unrendered_viewer = PyNone
   \<and> canvas_to_pdf_point unrendered_viewer 0 10 20 = Inl AttributeError
   \<and> canvas_to_pdf_point unrendered_viewer 0 10 20 \<noteq> Inr (10, 792 - 20)"
  by (simp add: point_eq unrendered_viewer_def session_defs)

section \<open>What rendering changes\<close>

text \<open>
  Drawing the overlays of a page and \<^verbatim>\<open>display_page\<close> write the page image and the canvas,
  nothing else.
\<close>

lemma create_rectangles_shape:
  "\<exists>items n. create_rectangles rs v = v\<lparr>canvas_items := items, next_item := n\<rparr>"
proof (induction rs arbitrary: v)
  case Nil
  have "v = v\<lparr>canvas_items := canvas_items v, next_item := next_item v\<rparr>" by simp
  then show ?case by (metis create_rectangles.simps(1))
next
  case (Cons r rs)
  obtain x0 y0 x1 y1 where r: "r = (x0, y0, x1, y1)" by (cases r) auto
  let ?v1 = "snd (canvas_create (rectangle_item [Redact_overlay] x0 y0 x1 y1) v)"
  from Cons.IH[of ?v1] obtain items n where
    "create_rectangles rs ?v1 = ?v1\<lparr>canvas_items := items, next_item := n\<rparr>" by blast
  then have "create_rectangles (r # rs) v = v\<lparr>canvas_items := items, next_item := n\<rparr>"
    by (simp add: r canvas_create_def)
  then show ?case by blast
qed

lemma render_texts_shape:
  "\<exists>items n. render_texts rs v = v\<lparr>canvas_items := items, next_item := n\<rparr>"
proof (induction rs arbitrary: v)
  case Nil
  have "v = v\<lparr>canvas_items := canvas_items v, next_item := next_item v\<rparr>" by simp
  then show ?case by (metis render_texts.simps(1))
next
  case (Cons r rs)
  let ?v1 = "snd (render_text r v)"
  from Cons.IH[of ?v1] obtain items n where
    "render_texts rs ?v1 = ?v1\<lparr>canvas_items := items, next_item := n\<rparr>" by blast
  then have "render_texts (r # rs) v = v\<lparr>canvas_items := items, next_item := n\<rparr>"
    by (simp add: render_text_def canvas_create_def)
  then show ?case by blast
qed

lemma restore_redactions_shape:
  "\<exists>items n. restore_redactions v = v\<lparr>canvas_items := items, next_item := n\<rparr>"
proof -
  let ?v1 = "canvas_delete_withtag Redact_overlay v"
  have v1: "?v1 = v\<lparr>canvas_items := canvas_items ?v1, next_item := next_item v\<rparr>"
    by (simp add: canvas_delete_withtag_def)
  show ?thesis
  proof (cases "redactions_by_page ?v1 (current_page ?v1)")
    case None
    then have "restore_redactions v = ?v1" by (simp add: restore_redactions_def Let_def)
    with v1 show ?thesis by metis
  next
    case (Some rs)
    then have e: "restore_redactions v = create_rectangles rs ?v1"
      by (simp add: restore_redactions_def Let_def)
    from create_rectangles_shape[of rs ?v1] obtain items n where
      "create_rectangles rs ?v1 = ?v1\<lparr>canvas_items := items, next_item := n\<rparr>" by blast
    with e have "restore_redactions v = v\<lparr>canvas_items := items, next_item := n\<rparr>"
      by (simp add: canvas_delete_withtag_def)
    then show ?thesis by blast
  qed
qed

lemma restore_texts_shape:
  "\<exists>items n. restore_texts v = v\<lparr>canvas_items := items, next_item := n\<rparr>"
proof -
  let ?v1 = "canvas_delete_withtag Text_overlay v"
  have v1: "?v1 = v\<lparr>canvas_items := canvas_items ?v1, next_item := next_item v\<rparr>"
    by (simp add: canvas_delete_withtag_def)
  show ?thesis
  proof (cases "texts_by_page ?v1 (current_page ?v1)")
    case None
    then have "restore_texts v = ?v1" by (simp add: restore_texts_def Let_def)
    with v1 show ?thesis by metis
  next
    case (Some rs)
    then have e: "restore_texts v = render_texts rs ?v1"
      by (simp add: restore_texts_def Let_def)
    from render_texts_shape[of rs ?v1] obtain items n where
      "render_texts rs ?v1 = ?v1\<lparr>canvas_items := items, next_item := n\<rparr>" by blast
    with e have "restore_texts v = v\<lparr>canvas_items := items, next_item := n\<rparr>"
      by (simp add: canvas_delete_withtag_def)
    then show ?thesis by blast
  qed
qed

lemma display_page_shape:
  "\<exists>ph items n. snd (display_page E v) = v\<lparr>page_photo := ph, canvas_items := items, next_item := n\<rparr>"
proof -
  have triv: "\<exists>ph items n. v = v\<lparr>page_photo := ph, canvas_items := items, next_item := n\<rparr>"
    by (rule exI[of _ "page_photo v"], rule exI[of _ "canvas_items v"],
        rule exI[of _ "next_item v"]) simp
  have core: "\<exists>ph items n. restore_texts (restore_redactions (snd (canvas_create it
            (canvas_delete_withtag Pdf (v\<lparr>page_photo := ph0\<rparr>)))))
          = v\<lparr>page_photo := ph, canvas_items := items, next_item := n\<rparr>" for it ph0
  proof -
    let ?a = "snd (canvas_create it (canvas_delete_withtag Pdf (v\<lparr>page_photo := ph0\<rparr>)))"
    obtain i1 n1 where r1: "restore_redactions ?a = ?a\<lparr>canvas_items := i1, next_item := n1\<rparr>"
      using restore_redactions_shape by blast
    obtain i2 n2 where r2: "restore_texts (restore_redactions ?a)
        = (restore_redactions ?a)\<lparr>canvas_items := i2, next_item := n2\<rparr>"
      using restore_texts_shape by blast
    have "restore_texts (restore_redactions ?a) = v\<lparr>page_photo := ph0, canvas_items := i2, next_item := n2\<rparr>"
      using r2 r1 by (simp add: canvas_create_def canvas_delete_withtag_def)
    then show ?thesis by blast
  qed
  show ?thesis
    by (simp add: display_page_def Let_def triv core)
qed

section \<open>The thumbnail cache\<close>

declare evict.simps [simp del]

lemma evict_drop: "evict cap xs = drop (length xs - cap) xs"
proof (induction cap xs rule: evict.induct)
  case (1 cap xs)
  show ?case
  proof (cases "cap < length xs")
    case True
    then obtain y ys where xs: "xs = y # ys" by (cases xs) auto
    from True have "length xs - cap = Suc (length ys - cap)" by (simp add: xs Suc_diff_le)
    with 1[OF True] True show ?thesis by (subst evict.simps) (simp add: xs)
  next
    case False
    then show ?thesis by (subst evict.simps) simp
  qed
qed

lemma display_page_cache [simp]:
  "thumbnail_cache (snd (display_page E v)) = thumbnail_cache v"
  "max_thumb_cache (snd (display_page E v)) = max_thumb_cache v"
proof -
  obtain ph items n where
    "snd (display_page E v) = v\<lparr>page_photo := ph, canvas_items := items, next_item := n\<rparr>"
    using display_page_shape by blast
  then show "thumbnail_cache (snd (display_page E v)) = thumbnail_cache v"
    "max_thumb_cache (snd (display_page E v)) = max_thumb_cache v" by simp_all
qed

lemma ensure_thumb_hit:
  "map_of (thumbnail_cache v) k = Some photo \<Longrightarrow>
   thumbnail_cache (snd (ensure_thumb E k v)) = filter (\<lambda>p. fst p \<noteq> k) (thumbnail_cache v) @ [(k, photo)]"
  by (simp add: ensure_thumb_def move_to_end_def)

lemma ensure_thumb_miss:
  "map_of (thumbnail_cache v) k = None \<Longrightarrow> k < length (pdf_document v) \<Longrightarrow>
   \<not> render_raises E (1 / 2) (pdf_document v ! k) \<Longrightarrow>
   thumbnail_cache (snd (ensure_thumb E k v))
     = evict (max_thumb_cache v) (thumbnail_cache v @
         [(k, pil_thumbnail E (pixmap_size E (1 / 2) (pdf_document v ! k)) (140, 180))])"
  by (simp add: ensure_thumb_def Let_def)

lemma ensure_thumb_absent:
  "map_of (thumbnail_cache v) k = None \<Longrightarrow> length (pdf_document v) \<le> k \<Longrightarrow>
   ensure_thumb E k v = (Some IndexError, v)"
  by (simp add: ensure_thumb_def)

lemma ensure_thumb_fails:
  "map_of (thumbnail_cache v) k = None \<Longrightarrow> k < length (pdf_document v) \<Longrightarrow>
   render_raises E (1 / 2) (pdf_document v ! k) \<Longrightarrow> ensure_thumb E k v = (Some FitzError, v)"
  by (simp add: ensure_thumb_def)

lemma ensure_thumb_max [simp]:
  "max_thumb_cache (snd (ensure_thumb E k v)) = max_thumb_cache v"
  by (simp add: ensure_thumb_def Let_def split: option.splits)

lemma filter_key_length:
  "map_of xs k = Some y \<Longrightarrow> length (filter (\<lambda>p. fst p \<noteq> k) xs) < length xs"
proof -
  assume "map_of xs k = Some y"
  then have "(k, y) \<in> set xs" by (rule map_of_SomeD)
  then show ?thesis by (rule length_filter_less) simp
qed

lemma ensure_thumb_cache_ok:
  assumes "cache_ok v"
  shows "cache_ok (snd (ensure_thumb E k v))"
proof (cases "map_of (thumbnail_cache v) k")
  case (Some photo)
  have d: "distinct (map fst (filter (\<lambda>p. fst p \<noteq> k) (thumbnail_cache v)))"
    using assms by (simp add: cache_ok_def distinct_map_filter)
  have "k \<notin> fst ` set (filter (\<lambda>p. fst p \<noteq> k) (thumbnail_cache v))" by auto
  with d filter_key_length[OF Some] assms show ?thesis
    by (simp add: cache_ok_def ensure_thumb_hit[OF Some])
next
  case None
  show ?thesis
  proof (cases "k < length (pdf_document v)")
    case True
    show ?thesis
    proof (cases "render_raises E (1 / 2) (pdf_document v ! k)")
      case raises: True
      with None \<open>k < length (pdf_document v)\<close> assms show ?thesis
        by (simp add: ensure_thumb_fails)
    next
      case False
      from None have k: "k \<notin> fst ` set (thumbnail_cache v)" by (simp add: map_of_eq_None_iff)
      let ?new = "thumbnail_cache v @ [(k, pil_thumbnail E (pixmap_size E (1 / 2) (pdf_document v ! k)) (140, 180))]"
      have "distinct (map fst ?new)" using assms k by (simp add: cache_ok_def)
      then have "distinct (map fst (drop (length ?new - 200) ?new))"
        by (simp only: drop_map[symmetric] distinct_drop)
      with assms show ?thesis
        by (simp add: cache_ok_def ensure_thumb_miss[OF None True False] evict_drop)
    qed
  next
    case False
    with None assms show ?thesis by (simp add: ensure_thumb_absent)
  qed
qed

lemma ensure_thumbs_cache_ok:
  "cache_ok v \<Longrightarrow> cache_ok (snd (ensure_thumbs E ks v))"
proof (induction ks arbitrary: v)
  case Nil
  then show ?case by simp
next
  case (Cons k ks)
  obtain e v1 where r: "ensure_thumb E k v = (e, v1)" by (cases "ensure_thumb E k v") auto
  from ensure_thumb_cache_ok[OF Cons.prems, of E k] r have "cache_ok v1" by simp
  with Cons.IH[of v1] r show ?case by (cases e) auto
qed

lemma schedule_thumb_batch_cache_ok:
  "cache_ok v \<Longrightarrow> cache_ok (snd (schedule_thumb_batch E v))"
proof -
  assume a: "cache_ok v"
  let ?ks = "[thumb_batch_idx v ..< min (thumb_batch_idx v + 8) (total_pages v)]"
  obtain e v1 where r: "ensure_thumbs E ?ks v = (e, v1)" by (cases "ensure_thumbs E ?ks v") auto
  from ensure_thumbs_cache_ok[OF a, of E ?ks] r have "cache_ok v1" by simp
  with a r show ?thesis
    by (cases e) (auto simp: schedule_thumb_batch_def Let_def cache_ok_def)
qed

lemma goto_page_cache_ok:
  "cache_ok v \<Longrightarrow> cache_ok (snd (goto_page E n v))"
proof -
  assume a: "cache_ok v"
  then have a': "cache_ok (v\<lparr>current_page := n\<rparr>)" by (simp add: cache_ok_def)
  obtain e v1 where r: "ensure_thumb E n (v\<lparr>current_page := n\<rparr>) = (e, v1)"
    by (cases "ensure_thumb E n (v\<lparr>current_page := n\<rparr>)") auto
  from ensure_thumb_cache_ok[OF a', of E n] r have "cache_ok v1" by simp
  with a r show ?thesis
    by (cases e) (auto simp: goto_page_def cache_ok_def)
qed

text \<open>Nothing but \<^verbatim>\<open>_ensure_thumb\<close> writes the cache.\<close>

lemma cache_part_updates [simp]:
  "cache_part (v\<lparr>canvas_items := a\<rparr>) = cache_part v"
  "cache_part (v\<lparr>next_item := b\<rparr>) = cache_part v"
  "cache_part (v\<lparr>page_photo := c\<rparr>) = cache_part v"
  "cache_part (v\<lparr>redact_overlay := d\<rparr>) = cache_part v"
  "cache_part (v\<lparr>redactions_by_page := e\<rparr>) = cache_part v"
  "cache_part (v\<lparr>texts_by_page := f\<rparr>) = cache_part v"
  "cache_part (v\<lparr>heap := g\<rparr>) = cache_part v"
  "cache_part (v\<lparr>next_ref := h\<rparr>) = cache_part v"
  "cache_part (v\<lparr>selected_text := i\<rparr>) = cache_part v"
  "cache_part (v\<lparr>text_overlay := j\<rparr>) = cache_part v"
  "cache_part (v\<lparr>text_panel := k\<rparr>) = cache_part v"
  "cache_part (v\<lparr>text_drag := l\<rparr>) = cache_part v"
  "cache_part (v\<lparr>text_entries := m\<rparr>) = cache_part v"
  "cache_part (v\<lparr>font_family := n\<rparr>) = cache_part v"
  "cache_part (v\<lparr>font_size := p\<rparr>) = cache_part v"
  "cache_part (v\<lparr>text_color := q\<rparr>) = cache_part v"
  "cache_part (v\<lparr>current_page := r\<rparr>) = cache_part v"
  "cache_part (v\<lparr>fit_to_window := s\<rparr>) = cache_part v"
  "cache_part (v\<lparr>zoom := t\<rparr>) = cache_part v"
  "cache_part (v\<lparr>canvas_width := u\<rparr>) = cache_part v"
  "cache_part (v\<lparr>canvas_height := w\<rparr>) = cache_part v"
  "cache_part (v\<lparr>thumb_batch_idx := x\<rparr>) = cache_part v"
  "cache_part (v\<lparr>thumb_photos_by_button := y\<rparr>) = cache_part v"
  by (simp_all add: cache_part_def)

lemma cache_part_blocks [simp]:
  "cache_part (canvas_delete i v) = cache_part v"
  "cache_part (canvas_delete_withtag t v) = cache_part v"
  "cache_part (snd (canvas_create it v)) = cache_part v"
  "cache_part (draw_selection E i v) = cache_part v"
  "cache_part (clear_text_selection v) = cache_part v"
  "cache_part (snd (render_text r v)) = cache_part v"
  "cache_part (store_remove cs v) = cache_part v"
  by (simp_all add: canvas_delete_def canvas_delete_withtag_def canvas_create_def
      draw_selection_def clear_text_selection_def render_text_def store_remove_def
      split: option.splits prod.splits)

lemma cache_part_set:
  "canvas_set_rect i x0 y0 x1 y1 v = Some v' \<Longrightarrow> cache_part v' = cache_part v"
  "canvas_set_anchor i x y v = Some v' \<Longrightarrow> cache_part v' = cache_part v"
  by (auto simp: canvas_set_rect_def canvas_set_anchor_def split: option.splits shape.splits)

lemma cache_part_display [simp]: "cache_part (snd (display_page E v)) = cache_part v"
proof -
  obtain ph items n where
    "snd (display_page E v) = v\<lparr>page_photo := ph, canvas_items := items, next_item := n\<rparr>"
    using display_page_shape by blast
  then show ?thesis by simp
qed

lemma cache_part_redact [simp]:
  "cache_part (snd (redact_start x y items v)) = cache_part v"
  "cache_part (snd (redact_drag x y v)) = cache_part v"
  "cache_part (snd (redact_finish v)) = cache_part v"
  "cache_part (snd (redact_right_click x y items v)) = cache_part v"
  "cache_part (snd (adjust_redact b d v)) = cache_part v"
  "cache_part (snd (delete_redact v)) = cache_part v"
  by (simp_all add: redact_start_def redact_drag_def redact_finish_def redact_right_click_def
      adjust_redact_def delete_redact_def cache_part_set Let_def split_beta
      split: option.splits list.splits)

lemma cache_part_apply [simp]: "cache_part (apply_panel E v) = cache_part v"
  by (simp add: apply_panel_def Let_def split_beta split: option.splits)

lemma cache_part_select [simp]: "cache_part (select_text E item td v) = cache_part v"
  by (simp add: select_text_def Let_def set_font_family_def set_font_size_def set_text_color_def
      split: option.splits)

lemma cache_part_text [simp]:
  "cache_part (text_click E x y items v) = cache_part v"
  "cache_part (save_text w text v) = cache_part v"
  "cache_part (entry_escape w v) = cache_part v"
  "cache_part (delete_text item td v) = cache_part v"
  "cache_part (text_right_click x y items v) = cache_part v"
  "cache_part (snd (text_drag_move E x y v)) = cache_part v"
  "cache_part (text_drag_drop E v) = cache_part v"
  "cache_part (set_font_family E label v) = cache_part v"
  "cache_part (set_font_size E n v) = cache_part v"
  "cache_part (set_text_color E c v) = cache_part v"
  "cache_part (deactivate_current_tool v) = cache_part v"
  "cache_part (action_redact v) = cache_part v"
  "cache_part (action_write v) = cache_part v"
  by (simp_all add: text_click_def save_text_def entry_escape_def delete_text_def
      text_right_click_def text_drag_move_def text_drag_drop_def set_font_family_def
      set_font_size_def set_text_color_def deactivate_current_tool_def action_redact_def
      action_write_def create_text_panel_def cache_part_set Let_def split_beta
      split: option.splits list.splits)

section \<open>What an export changes\<close>

lemma only_view_changed_refl [simp]: "only_view_changed v v"
  by (simp add: only_view_changed_def)

lemma only_view_changedI:
  "v' = v\<lparr>current_page := cp, page_photo := ph, canvas_items := items, next_item := n\<rparr>
   \<Longrightarrow> only_view_changed v v'"
  by (simp add: only_view_changed_def)

lemma only_view_changed_trans:
  assumes "only_view_changed v v'" and "only_view_changed v' v''"
  shows "only_view_changed v v''"
proof -
  from assms(1) obtain cp ph items n where
    a: "v' = v\<lparr>current_page := cp, page_photo := ph, canvas_items := items, next_item := n\<rparr>"
    unfolding only_view_changed_def by blast
  from assms(2) obtain cp' ph' items' n' where
    b: "v'' = v'\<lparr>current_page := cp', page_photo := ph', canvas_items := items', next_item := n'\<rparr>"
    unfolding only_view_changed_def by blast
  have "v'' = v\<lparr>current_page := cp', page_photo := ph', canvas_items := items', next_item := n'\<rparr>"
    unfolding b a by simp
  then show ?thesis by (rule only_view_changedI)
qed

lemma only_view_changed_display:
  "only_view_changed v (snd (display_page E (v\<lparr>current_page := p\<rparr>)))"
proof -
  obtain ph items n where
    "snd (display_page E (v\<lparr>current_page := p\<rparr>))
       = v\<lparr>current_page := p, page_photo := ph, canvas_items := items, next_item := n\<rparr>"
    using display_page_shape[of E "v\<lparr>current_page := p\<rparr>"] by auto
  then show ?thesis by (rule only_view_changedI)
qed

lemma export_text_view: "only_view_changed v (snd (export_text E page_idx td v))"
proof -
  let ?v1 = "snd (if page_idx \<noteq> current_page v
              then display_page E (v\<lparr>current_page := page_idx\<rparr>) else (None, v))"
  have 1: "only_view_changed v ?v1" by (simp add: only_view_changed_display)
  have 2: "only_view_changed v (snd (display_page E (?v1\<lparr>current_page := current_page v\<rparr>)))"
    by (rule only_view_changed_trans[OF 1 only_view_changed_display])
  show ?thesis
    using 1 2
    by (auto simp: export_text_def Let_def split: prod.splits option.splits sum.splits if_splits)
qed

lemma export_texts_view: "only_view_changed v (snd (export_texts E page_idx tds v))"
proof (induction tds arbitrary: v)
  case Nil
  show ?case by simp
next
  case (Cons td tds)
  obtain r v1 where e: "export_text E page_idx td v = (r, v1)"
    by (cases "export_text E page_idx td v") auto
  have 1: "only_view_changed v v1" using export_text_view[of v E page_idx td] e by simp
  show ?case
  proof (cases r)
    case (Inl err)
    with e 1 show ?thesis by simp
  next
    case (Inr res)
    obtain r2 v2 where e2: "export_texts E page_idx tds v1 = (r2, v2)"
      by (cases "export_texts E page_idx tds v1") auto
    have "only_view_changed v1 v2" using Cons.IH[of v1] e2 by simp
    with 1 have "only_view_changed v v2" by (rule only_view_changed_trans)
    with e e2 Inr show ?thesis by (cases r2) auto
  qed
qed

lemma export_texts_viewD:
  "export_texts E page_idx tds v = (r, v') \<Longrightarrow> only_view_changed v v'"
  using export_texts_view[of v E page_idx tds] by simp

lemma export_page_view: "only_view_changed v (snd (export_page E page_idx v))"
  by (auto simp: export_page_def split: option.splits sum.splits prod.splits
      dest: export_texts_viewD)

lemma export_pages_view: "only_view_changed v (snd (export_pages E ps v))"
proof (induction ps arbitrary: v)
  case Nil
  show ?case by simp
next
  case (Cons p ps)
  obtain r v1 where e: "export_page E p v = (r, v1)"
    by (cases "export_page E p v") auto
  have 1: "only_view_changed v v1" using export_page_view[of v E p] e by simp
  show ?case
  proof (cases r)
    case (Inl err)
    with e 1 show ?thesis by simp
  next
    case (Inr pg)
    obtain r2 v2 where e2: "export_pages E ps v1 = (r2, v2)"
      by (cases "export_pages E ps v1") auto
    have "only_view_changed v1 v2" using Cons.IH[of v1] e2 by simp
    with 1 have "only_view_changed v v2" by (rule only_view_changed_trans)
    with e e2 Inr show ?thesis by (cases r2) auto
  qed
qed

lemma export_pages_viewD:
  "export_pages E ps v = (r, v') \<Longrightarrow> only_view_changed v v'"
  using export_pages_view[of v E ps] by simp

lemma export_with_overlays_view: "only_view_changed v (snd (export_with_overlays E v))"
  by (auto simp: export_with_overlays_def split: prod.splits sum.splits
      dest: export_pages_viewD)

lemma only_view_changed_fields:
  assumes "only_view_changed v v'"
  shows "redactions_by_page v' = redactions_by_page v" "texts_by_page v' = texts_by_page v"
    "heap v' = heap v" "cache_part v' = cache_part v" "pdf_document v' = pdf_document v"
    "fit_to_window v' = fit_to_window v" "canvas_width v' = canvas_width v"
    "canvas_height v' = canvas_height v"
proof -
  from assms obtain cp ph items n where
    "v' = v\<lparr>current_page := cp, page_photo := ph, canvas_items := items, next_item := n\<rparr>"
    unfolding only_view_changed_def by blast
  then show "redactions_by_page v' = redactions_by_page v" "texts_by_page v' = texts_by_page v"
    "heap v' = heap v" "cache_part v' = cache_part v" "pdf_document v' = pdf_document v"
    "fit_to_window v' = fit_to_window v" "canvas_width v' = canvas_width v"
    "canvas_height v' = canvas_height v"
    by simp_all
qed

text \<open>
  Claim C10. Whatever \<^verbatim>\<open>_export_with_overlays\<close> does, return or raise (the first component
  of its result), the viewer it leaves has the redaction store, the text store and every
  annotation dict as they were before.
\<close>

theorem export_with_overlays_keeps_overlays:
  "redactions_by_page (snd (export_with_overlays E v)) = redactions_by_page v
   \<and> texts_by_page (snd (export_with_overlays E v)) = texts_by_page v
   \<and> heap (snd (export_with_overlays E v)) = heap v"
  using only_view_changed_fields(1-3)[OF export_with_overlays_view[of v E]] by simp

section \<open>The cache is least-recently-used\<close>

lemma cache_ok_part: "cache_part v' = cache_part v \<Longrightarrow> cache_ok v' = cache_ok v"
  by (simp add: cache_ok_def cache_part_def)

lemma cache_ok_alt:
  "cache_ok v \<longleftrightarrow> snd (cache_part v) = 200 \<and> length (fst (cache_part v)) \<le> 200
     \<and> distinct (map fst (fst (cache_part v)))"
  by (simp add: cache_ok_def cache_part_def)

lemma step_cache_ok: "cache_ok v \<Longrightarrow> cache_ok (step E ev v)"
proof (cases ev)
  case (Goto n)
  assume "cache_ok v"
  with Goto show ?thesis by (simp add: goto_page_cache_ok)
next
  case Next_page
  assume "cache_ok v"
  with Next_page show ?thesis by (simp add: next_page_def goto_page_cache_ok)
next
  case Prev_page
  assume "cache_ok v"
  with Prev_page show ?thesis by (simp add: prev_page_def goto_page_cache_ok)
next
  case Timer_thumbs
  assume "cache_ok v"
  with Timer_thumbs show ?thesis by (simp add: schedule_thumb_batch_cache_ok)
next
  case Share_save
  assume "cache_ok v"
  with Share_save show ?thesis
    by (simp add: cache_ok_part[OF only_view_changed_fields(4)[OF export_with_overlays_view]])
qed (simp_all add: cache_ok_alt zoom_in_def zoom_out_def Let_def)

lemma init_cache_ok:
  "viewer_init E doc cw ch = (e, v) \<Longrightarrow> cache_ok v"
proof -
  assume a: "viewer_init E doc cw ch = (e, v)"
  have 0: "cache_ok (init_fields doc cw ch)" by (simp add: cache_ok_def init_fields_def)
  obtain e1 v1 where s: "schedule_thumb_batch E (init_fields doc cw ch) = (e1, v1)"
    by (cases "schedule_thumb_batch E (init_fields doc cw ch)") auto
  from schedule_thumb_batch_cache_ok[OF 0, of E] s have 1: "cache_ok v1" by simp
  have "cache_ok (snd (display_page E v1))" using 1 by (simp add: cache_ok_alt)
  with a s 1 show ?thesis by (cases e1) (auto simp: viewer_init_def)
qed

lemma reachable_cache_ok: "reachable E v \<Longrightarrow> cache_ok v"
  by (induction rule: reachable.induct) (auto intro: init_cache_ok step_cache_ok)

text \<open>
  Claim C8. In every viewer a session can reach, the capacity is 200, the cache holds at
  most 200 entries, one per page index, and \<^verbatim>\<open>_ensure_thumb\<close> treats it as a
  least-recently-used cache whose front is the least recently accessed entry: on a cached
  page the entry moves to the back; on a page not cached, once its thumbnail is made,
  the new entry is put at the back and, when the cache was full, exactly the front entry
  is dropped.
\<close>

theorem thumbnail_cache_lru:
  assumes "reachable E v"
  shows "max_thumb_cache v = 200
     \<and> length (thumbnail_cache v) \<le> 200
     \<and> distinct (map fst (thumbnail_cache v))
     \<and> (\<forall>k photo. map_of (thumbnail_cache v) k = Some photo \<longrightarrow>
          thumbnail_cache (snd (ensure_thumb E k v))
            = filter (\<lambda>p. fst p \<noteq> k) (thumbnail_cache v) @ [(k, photo)])
     \<and> (\<forall>k. map_of (thumbnail_cache v) k = None \<and> k < length (pdf_document v)
            \<and> \<not> render_raises E (1 / 2) (pdf_document v ! k) \<longrightarrow>
          (\<exists>photo. thumbnail_cache (snd (ensure_thumb E k v))
             = (if length (thumbnail_cache v) < 200 then thumbnail_cache v @ [(k, photo)]
                else tl (thumbnail_cache v) @ [(k, photo)])))"
proof -
  from assms have ok: "cache_ok v" by (rule reachable_cache_ok)
  then have m: "max_thumb_cache v = 200" and l: "length (thumbnail_cache v) \<le> 200"
    and d: "distinct (map fst (thumbnail_cache v))" by (simp_all add: cache_ok_def)
  have miss: "\<exists>photo. thumbnail_cache (snd (ensure_thumb E k v))
             = (if length (thumbnail_cache v) < 200 then thumbnail_cache v @ [(k, photo)]
                else tl (thumbnail_cache v) @ [(k, photo)])"
    if "map_of (thumbnail_cache v) k = None" "k < length (pdf_document v)"
      "\<not> render_raises E (1 / 2) (pdf_document v ! k)" for k
  proof (cases "length (thumbnail_cache v) < 200")
    case True
    then show ?thesis by (simp add: ensure_thumb_miss[OF that] evict_drop m)
  next
    case False
    with l have len: "length (thumbnail_cache v) = 200" by simp
    then obtain y ys where c: "thumbnail_cache v = y # ys" by (cases "thumbnail_cache v") auto
    with len show ?thesis by (simp add: ensure_thumb_miss[OF that] evict_drop m)
  qed
  from m l d miss show ?thesis by (simp add: ensure_thumb_hit)
qed

lemma example_viewer_reachable: "reachable example_env example_viewer"
proof -
  have "fst (viewer_init example_env two_pages 540 700) = None"
    by (simp add: session_defs evict_drop)
  then have "viewer_init example_env two_pages 540 700 = (None, example_viewer)"
    by (simp add: example_viewer_def prod_eq_iff)
  then show ?thesis by (rule reachable.init)
qed

lemma example_viewer_cache:
  "thumbnail_cache example_viewer = [(0, (139, 180)), (1, (140, 108))]"
  by (simp add: session_defs evict_drop)

theorem thumbnail_cache_lru_witness:
  "reachable example_env example_viewer
   \<and> thumbnail_cache example_viewer = [(0, (139, 180)), (1, (140, 108))]
   \<and> length (thumbnail_cache example_viewer) \<le> 200
   \<and> thumbnail_cache (snd (ensure_thumb example_env 0 example_viewer))
        = [(1, (140, 108)), (0, (139, 180))]"
  using thumbnail_cache_lru[OF example_viewer_reachable] example_viewer_reachable
  by (simp add: example_viewer_cache)

section \<open>What writes the overlay stores\<close>

lemma canvas_frame [simp]:
  "redactions_by_page (canvas_delete i v) = redactions_by_page v"
  "texts_by_page (canvas_delete i v) = texts_by_page v"
  "heap (canvas_delete i v) = heap v"
  "current_page (canvas_delete i v) = current_page v"
  "redactions_by_page (canvas_delete_withtag t v) = redactions_by_page v"
  "texts_by_page (canvas_delete_withtag t v) = texts_by_page v"
  "heap (canvas_delete_withtag t v) = heap v"
  "current_page (canvas_delete_withtag t v) = current_page v"
  "redactions_by_page (snd (canvas_create it v)) = redactions_by_page v"
  "texts_by_page (snd (canvas_create it v)) = texts_by_page v"
  "heap (snd (canvas_create it v)) = heap v"
  "current_page (snd (canvas_create it v)) = current_page v"
  by (simp_all add: canvas_delete_def canvas_delete_withtag_def canvas_create_def)

lemma canvas_set_frame:
  "canvas_set_rect i x0 y0 x1 y1 v = Some v' \<Longrightarrow> redactions_by_page v' = redactions_by_page v"
  "canvas_set_rect i x0 y0 x1 y1 v = Some v' \<Longrightarrow> texts_by_page v' = texts_by_page v"
  "canvas_set_rect i x0 y0 x1 y1 v = Some v' \<Longrightarrow> heap v' = heap v"
  "canvas_set_rect i x0 y0 x1 y1 v = Some v' \<Longrightarrow> current_page v' = current_page v"
  "canvas_set_anchor i x y v = Some v' \<Longrightarrow> redactions_by_page v' = redactions_by_page v"
  "canvas_set_anchor i x y v = Some v' \<Longrightarrow> texts_by_page v' = texts_by_page v"
  "canvas_set_anchor i x y v = Some v' \<Longrightarrow> heap v' = heap v"
  "canvas_set_anchor i x y v = Some v' \<Longrightarrow> current_page v' = current_page v"
  by (auto simp: canvas_set_rect_def canvas_set_anchor_def split: option.splits shape.splits)

lemma text_blocks_frame [simp]:
  "redactions_by_page (draw_selection E i v) = redactions_by_page v"
  "texts_by_page (draw_selection E i v) = texts_by_page v"
  "heap (draw_selection E i v) = heap v"
  "current_page (draw_selection E i v) = current_page v"
  "redactions_by_page (clear_text_selection v) = redactions_by_page v"
  "texts_by_page (clear_text_selection v) = texts_by_page v"
  "heap (clear_text_selection v) = heap v"
  "current_page (clear_text_selection v) = current_page v"
  "redactions_by_page (snd (render_text r v)) = redactions_by_page v"
  "texts_by_page (snd (render_text r v)) = texts_by_page v"
  "heap (snd (render_text r v)) = heap v"
  "current_page (snd (render_text r v)) = current_page v"
  by (simp_all add: draw_selection_def clear_text_selection_def render_text_def
      split: option.splits prod.splits)

lemma display_page_frame [simp]:
  "redactions_by_page (snd (display_page E v)) = redactions_by_page v"
  "texts_by_page (snd (display_page E v)) = texts_by_page v"
  "heap (snd (display_page E v)) = heap v"
  "current_page (snd (display_page E v)) = current_page v"
proof -
  obtain ph items n where
    "snd (display_page E v) = v\<lparr>page_photo := ph, canvas_items := items, next_item := n\<rparr>"
    using display_page_shape by blast
  then show "redactions_by_page (snd (display_page E v)) = redactions_by_page v"
    "texts_by_page (snd (display_page E v)) = texts_by_page v"
    "heap (snd (display_page E v)) = heap v"
    "current_page (snd (display_page E v)) = current_page v" by simp_all
qed

lemma store_remove_frame [simp]:
  "texts_by_page (store_remove cs v) = texts_by_page v"
  "heap (store_remove cs v) = heap v"
  "current_page (store_remove cs v) = current_page v"
  by (simp_all add: store_remove_def split: option.splits)

lemma ensure_thumb_frame [simp]:
  "redactions_by_page (snd (ensure_thumb E k v)) = redactions_by_page v"
  "texts_by_page (snd (ensure_thumb E k v)) = texts_by_page v"
  "heap (snd (ensure_thumb E k v)) = heap v"
  by (simp_all add: ensure_thumb_def Let_def split: option.splits)

lemma ensure_thumbs_frame [simp]:
  "redactions_by_page (snd (ensure_thumbs E ks v)) = redactions_by_page v
   \<and> texts_by_page (snd (ensure_thumbs E ks v)) = texts_by_page v
   \<and> heap (snd (ensure_thumbs E ks v)) = heap v"
proof (induction ks arbitrary: v)
  case Nil
  show ?case by simp
next
  case (Cons k ks)
  obtain e v1 where r: "ensure_thumb E k v = (e, v1)" by (cases "ensure_thumb E k v") auto
  have "redactions_by_page v1 = redactions_by_page v \<and> texts_by_page v1 = texts_by_page v
     \<and> heap v1 = heap v"
    using ensure_thumb_frame[of E k v] r by simp
  with Cons.IH[of v1] r show ?case by (cases e) auto
qed

lemma navigation_frame [simp]:
  "redactions_by_page (snd (schedule_thumb_batch E v)) = redactions_by_page v"
  "texts_by_page (snd (schedule_thumb_batch E v)) = texts_by_page v"
  "heap (snd (schedule_thumb_batch E v)) = heap v"
  "redactions_by_page (snd (goto_page E n v)) = redactions_by_page v"
  "texts_by_page (snd (goto_page E n v)) = texts_by_page v"
  "heap (snd (goto_page E n v)) = heap v"
proof -
  let ?ks = "[thumb_batch_idx v ..< min (thumb_batch_idx v + 8) (total_pages v)]"
  obtain e v1 where r: "ensure_thumbs E ?ks v = (e, v1)" by (cases "ensure_thumbs E ?ks v") auto
  have 1: "redactions_by_page v1 = redactions_by_page v \<and> texts_by_page v1 = texts_by_page v
     \<and> heap v1 = heap v"
    using ensure_thumbs_frame[of E ?ks v] r by simp
  from 1 r show "redactions_by_page (snd (schedule_thumb_batch E v)) = redactions_by_page v"
    "texts_by_page (snd (schedule_thumb_batch E v)) = texts_by_page v"
    "heap (snd (schedule_thumb_batch E v)) = heap v"
    by (cases e; simp add: schedule_thumb_batch_def Let_def)+
  obtain e2 v2 where r2: "ensure_thumb E n (v\<lparr>current_page := n\<rparr>) = (e2, v2)"
    by (cases "ensure_thumb E n (v\<lparr>current_page := n\<rparr>)") auto
  have 2: "redactions_by_page v2 = redactions_by_page v \<and> texts_by_page v2 = texts_by_page v
     \<and> heap v2 = heap v"
    using ensure_thumb_frame[of E n "v\<lparr>current_page := n\<rparr>"] r2 by simp
  from 2 r2 show "redactions_by_page (snd (goto_page E n v)) = redactions_by_page v"
    "texts_by_page (snd (goto_page E n v)) = texts_by_page v"
    "heap (snd (goto_page E n v)) = heap v"
    by (cases e2; simp add: goto_page_def)+
qed

lemma apply_panel_redactions [simp]:
  "redactions_by_page (apply_panel E v) = redactions_by_page v"
  by (simp add: apply_panel_def Let_def split_beta split: option.splits)

lemma set_panel_redactions [simp]:
  "redactions_by_page (set_font_family E label v) = redactions_by_page v"
  "redactions_by_page (set_font_size E n v) = redactions_by_page v"
  "redactions_by_page (set_text_color E c v) = redactions_by_page v"
  by (simp_all add: set_font_family_def set_font_size_def set_text_color_def)

lemma select_text_redactions [simp]:
  "redactions_by_page (select_text E item td v) = redactions_by_page v"
  by (simp add: select_text_def Let_def split: option.splits)

lemma delete_text_redactions [simp]:
  "redactions_by_page (delete_text item td v) = redactions_by_page v"
  by (simp add: delete_text_def Let_def split: option.splits)

lemma text_tool_redactions [simp]:
  "redactions_by_page (text_click E x y items v) = redactions_by_page v"
  "redactions_by_page (save_text w text v) = redactions_by_page v"
  "redactions_by_page (entry_escape w v) = redactions_by_page v"
  "redactions_by_page (text_right_click x y items v) = redactions_by_page v"
  "redactions_by_page (snd (text_drag_move E x y v)) = redactions_by_page v"
  "redactions_by_page (text_drag_drop E v) = redactions_by_page v"
  "redactions_by_page (deactivate_current_tool v) = redactions_by_page v"
  "redactions_by_page (action_redact v) = redactions_by_page v"
  "redactions_by_page (action_write v) = redactions_by_page v"
  by (simp_all add: text_click_def save_text_def entry_escape_def
      text_right_click_def text_drag_move_def text_drag_drop_def
      deactivate_current_tool_def canvas_set_frame
      action_redact_def action_write_def create_text_panel_def Let_def split_beta
      split: option.splits list.splits)

section \<open>The redaction store holds no degenerate rectangle\<close>

lemma redact_handlers_frame [simp]:
  "redactions_by_page (snd (redact_start x y items v)) = redactions_by_page v"
  "redactions_by_page (snd (redact_drag x y v)) = redactions_by_page v"
  "redactions_by_page (snd (adjust_redact b d v)) = redactions_by_page v"
  by (simp_all add: redact_start_def redact_drag_def adjust_redact_def canvas_set_frame
      Let_def split_beta split: option.splits list.splits)

lemma redactions_ok_store_remove:
  assumes "redactions_ok v"
  shows "redactions_ok (store_remove cs v)"
proof -
  have "redactions_ok (v\<lparr>redactions_by_page := (redactions_by_page v)(p \<mapsto> remove1 r rs)\<rparr>)"
    if "redactions_by_page v p = Some rs" for p r rs
    unfolding redactions_ok_def
  proof (intro allI impI ballI)
    fix p' rs' q
    assume s: "redactions_by_page (v\<lparr>redactions_by_page := (redactions_by_page v)(p \<mapsto> remove1 r rs)\<rparr>) p' = Some rs'"
      and q: "q \<in> set rs'"
    show "nondegenerate q"
    proof (cases "p' = p")
      case True
      with s have "rs' = remove1 r rs" by simp
      with q have "q \<in> set rs" using set_remove1_subset[of r rs] by auto
      with that assms show ?thesis by (auto simp: redactions_ok_def)
    next
      case False
      with s q assms show ?thesis by (auto simp: redactions_ok_def)
    qed
  qed
  with assms show ?thesis by (simp add: store_remove_def split: option.splits)
qed

lemma redactions_ok_same:
  "redactions_by_page v' = redactions_by_page v \<Longrightarrow> redactions_ok v \<Longrightarrow> redactions_ok v'"
  by (simp add: redactions_ok_def)

lemma redact_remove_ok:
  "redactions_ok v \<Longrightarrow> redactions_ok (snd (redact_right_click x y items v))"
  "redactions_ok v \<Longrightarrow> redactions_ok (snd (delete_redact v))"
proof -
  assume a: "redactions_ok v"
  have r: "redactions_ok (w\<lparr>redact_overlay := ro\<rparr>) = redactions_ok w"
    "redactions_ok (canvas_delete i w) = redactions_ok w" for w ro i
    by (simp_all add: redactions_ok_def)
  from redactions_ok_store_remove[OF a] a
  show "redactions_ok (snd (redact_right_click x y items v))"
    by (simp add: redact_right_click_def Let_def r split: option.splits)
  from redactions_ok_store_remove[OF a] a
  show "redactions_ok (snd (delete_redact v))"
    by (simp add: delete_redact_def Let_def r split: option.splits)
qed

lemma four_coords_case:
  "(case cs of [c0, c1, c2, c3] \<Rightarrow> f c0 c1 c2 c3 | _ \<Rightarrow> g)
    = (case coords_tuple cs of Some (c0, c1, c2, c3) \<Rightarrow> f c0 c1 c2 c3 | None \<Rightarrow> g)"
  by (simp split: list.splits)

lemma coords_tuple_Some: "coords_tuple cs = Some (c0, c1, c2, c3) \<longleftrightarrow> cs = [c0, c1, c2, c3]"
  by (auto split: list.splits elim!: coords_tuple.elims)

lemma redact_finish_either:
  "redactions_by_page (snd (redact_finish v)) = redactions_by_page v
   \<or> (\<exists>r. nondegenerate r \<and>
        redactions_by_page (snd (redact_finish v)) = (redactions_by_page v)(current_page v \<mapsto>
          (case redactions_by_page v (current_page v) of None \<Rightarrow> [] | Some rs \<Rightarrow> rs) @ [r]))"
proof (cases "redact_overlay v")
  case None
  then show ?thesis by (simp add: redact_finish_def)
next
  case (Some ro)
  show ?thesis
  proof (cases "mode ro = Draw")
    case False
    with Some show ?thesis by (simp add: redact_finish_def)
  next
    case True
    show ?thesis
    proof (cases "truthy_item (current_item ro)")
      case None
      with Some True show ?thesis by (simp add: redact_finish_def)
    next
      case (Some item)
      note item = Some
      show ?thesis
      proof (cases "coords_tuple (canvas_coords v item)")
        case None
        with \<open>redact_overlay v = Some ro\<close> True item show ?thesis
          by (simp add: redact_finish_def four_coords_case)
      next
        case (Some r)
        obtain c0 c1 c2 c3 where r: "r = (c0, c1, c2, c3)" by (cases r) auto
        show ?thesis
        proof (cases "\<bar>c2 - c0\<bar> < 5 \<or> \<bar>c3 - c1\<bar> < 5")
          case True
          with \<open>redact_overlay v = Some ro\<close> \<open>mode ro = Draw\<close> item Some r show ?thesis
            by (simp add: redact_finish_def four_coords_case Let_def)
        next
          case False
          then have "nondegenerate r" by (simp add: r)
          moreover have "redactions_by_page (snd (redact_finish v))
              = (redactions_by_page v)(current_page v \<mapsto>
                  (case redactions_by_page v (current_page v) of None \<Rightarrow> [] | Some rs \<Rightarrow> rs) @ [r])"
            using False \<open>redact_overlay v = Some ro\<close> \<open>mode ro = Draw\<close> item Some r
            by (simp add: redact_finish_def four_coords_case Let_def)
          ultimately show ?thesis by blast
        qed
      qed
    qed
  qed
qed

lemma redact_finish_ok:
  assumes "redactions_ok v"
  shows "redactions_ok (snd (redact_finish v))"
proof -
  from redact_finish_either[of v] show ?thesis
  proof
    assume "redactions_by_page (snd (redact_finish v)) = redactions_by_page v"
    with assms show ?thesis by (simp add: redactions_ok_def)
  next
    assume "\<exists>r. nondegenerate r \<and>
        redactions_by_page (snd (redact_finish v)) = (redactions_by_page v)(current_page v \<mapsto>
          (case redactions_by_page v (current_page v) of None \<Rightarrow> [] | Some rs \<Rightarrow> rs) @ [r])"
    then obtain r where n: "nondegenerate r" and
      e: "redactions_by_page (snd (redact_finish v)) = (redactions_by_page v)(current_page v \<mapsto>
          (case redactions_by_page v (current_page v) of None \<Rightarrow> [] | Some rs \<Rightarrow> rs) @ [r])"
      by blast
    show ?thesis
      unfolding redactions_ok_def e
    proof (intro allI impI ballI)
      fix p rs q
      assume s: "((redactions_by_page v)(current_page v \<mapsto>
          (case redactions_by_page v (current_page v) of None \<Rightarrow> [] | Some rs \<Rightarrow> rs) @ [r])) p = Some rs"
        and q: "q \<in> set rs"
      show "nondegenerate q"
      proof (cases "p = current_page v")
        case False
        with s q assms show ?thesis by (auto simp: redactions_ok_def)
      next
        case True
        with s have rs: "rs = (case redactions_by_page v (current_page v) of None \<Rightarrow> [] | Some rs \<Rightarrow> rs) @ [r]"
          by simp
        show ?thesis
        proof (cases "redactions_by_page v (current_page v)")
          case None
          with rs q n show ?thesis by simp
        next
          case (Some old)
          with rs q n assms show ?thesis by (auto simp: redactions_ok_def)
        qed
      qed
    qed
  qed
qed

lemma step_redactions_ok: "redactions_ok v \<Longrightarrow> redactions_ok (step E ev v)"
proof (cases ev)
  case Redact_finish
  assume "redactions_ok v"
  with Redact_finish show ?thesis by (simp add: redact_finish_ok)
next
  case (Redact_right_click x y items)
  assume "redactions_ok v"
  with Redact_right_click show ?thesis by (simp add: redact_remove_ok)
next
  case Delete_redact
  assume "redactions_ok v"
  with Delete_redact show ?thesis by (simp add: redact_remove_ok)
next
  case Share_save
  assume "redactions_ok v"
  with Share_save show ?thesis
    by (simp add: redactions_ok_def only_view_changed_fields(1)[OF export_with_overlays_view])
qed (simp_all add: redactions_ok_def zoom_in_def zoom_out_def next_page_def prev_page_def Let_def)

lemma init_redactions:
  "redactions_by_page (snd (viewer_init E doc cw ch)) = Map.empty"
  "texts_by_page (snd (viewer_init E doc cw ch)) = Map.empty"
proof -
  let ?v0 = "init_fields doc cw ch"
  obtain e1 v1 where s: "schedule_thumb_batch E ?v0 = (e1, v1)"
    by (cases "schedule_thumb_batch E ?v0") auto
  have f: "redactions_by_page ?v0 = Map.empty" "texts_by_page ?v0 = Map.empty"
    by (simp_all add: init_fields_def)
  from s have "v1 = snd (schedule_thumb_batch E ?v0)" by simp
  then have "redactions_by_page v1 = Map.empty \<and> texts_by_page v1 = Map.empty"
    by (simp add: f)
  with s show "redactions_by_page (snd (viewer_init E doc cw ch)) = Map.empty"
     "texts_by_page (snd (viewer_init E doc cw ch)) = Map.empty"
    by (cases e1; simp add: viewer_init_def)+
qed

lemma reachable_redactions_ok: "reachable E v \<Longrightarrow> redactions_ok v"
proof (induction rule: reachable.induct)
  case (init doc cw ch v)
  with init_redactions(1)[of E doc cw ch] show ?case by (simp add: redactions_ok_def)
next
  case (step v ev)
  then show ?case by (simp add: step_redactions_ok)
qed

lemma reachable_run: "reachable E v \<Longrightarrow> reachable E (run E evs v)"
  by (induction evs arbitrary: v) (auto intro: reachable.step)

lemma canvas_coords_deleted: "canvas_coords (canvas_delete i v) i = []"
proof -
  have "map_of (filter (\<lambda>p. fst p \<noteq> i) (canvas_items v)) i = None"
    by (auto simp: map_of_eq_None_iff)
  then show ?thesis by (simp add: canvas_coords_def canvas_delete_def)
qed

text \<open>
  Claim C6. In every viewer a session can reach, each rectangle of the redaction store is
  at least 5 pixels wide and high. \<^verbatim>\<open>_redact_finish\<close> either leaves the store alone or appends
  one such rectangle to the list of the current page; at the end of a draw gesture it
  appends the drawn rectangle if both sides reach 5 pixels, and otherwise deletes the
  canvas item and stores nothing.
\<close>

theorem redact_finish_threshold:
  assumes "reachable E v"
  shows "redactions_ok v
     \<and> (redactions_by_page (snd (redact_finish v)) = redactions_by_page v
        \<or> (\<exists>r. nondegenerate r \<and>
              redactions_by_page (snd (redact_finish v)) = (redactions_by_page v)(current_page v \<mapsto>
                (case redactions_by_page v (current_page v) of None \<Rightarrow> [] | Some rs \<Rightarrow> rs) @ [r])))
     \<and> (\<forall>ro item c0 c1 c2 c3.
           redact_overlay v = Some ro \<and> mode ro = Draw \<and> truthy_item (current_item ro) = Some item
           \<and> canvas_coords v item = [c0, c1, c2, c3] \<longrightarrow>
           (if \<bar>c2 - c0\<bar> < 5 \<or> \<bar>c3 - c1\<bar> < 5
            then redactions_by_page (snd (redact_finish v)) = redactions_by_page v
                 \<and> canvas_coords (snd (redact_finish v)) item = []
            else redactions_by_page (snd (redact_finish v)) = (redactions_by_page v)(current_page v \<mapsto>
                   (case redactions_by_page v (current_page v) of None \<Rightarrow> [] | Some rs \<Rightarrow> rs)
                     @ [(c0, c1, c2, c3)])))"
proof -
  have gesture: "(if \<bar>c2 - c0\<bar> < 5 \<or> \<bar>c3 - c1\<bar> < 5
            then redactions_by_page (snd (redact_finish v)) = redactions_by_page v
                 \<and> canvas_coords (snd (redact_finish v)) item = []
            else redactions_by_page (snd (redact_finish v)) = (redactions_by_page v)(current_page v \<mapsto>
                   (case redactions_by_page v (current_page v) of None \<Rightarrow> [] | Some rs \<Rightarrow> rs)
                     @ [(c0, c1, c2, c3)]))"
    if "redact_overlay v = Some ro" "mode ro = Draw" "truthy_item (current_item ro) = Some item"
      "canvas_coords v item = [c0, c1, c2, c3]" for ro item c0 c1 c2 c3
  proof -
    have "canvas_coords ((canvas_delete item v)\<lparr>redact_overlay := x\<rparr>) item = []" for x
      using canvas_coords_deleted[of item v] by (simp add: canvas_coords_def)
    with that show ?thesis by (simp add: redact_finish_def Let_def)
  qed
  from reachable_redactions_ok[OF assms] redact_finish_either[of v] gesture
  show ?thesis by blast
qed

lemmas redact_defs = action_redact_def deactivate_current_tool_def clear_text_selection_def
  redact_start_def redact_drag_def redact_finish_def adjust_redact_def delete_redact_def
  redact_right_click_def store_remove_def canvas_coords_def canvas_gettags_def
  canvas_set_rect_def canvas_delete_def rectangle_item_def canvas_create_def
  canvas_delete_withtag_def

lemma example_viewer_canvas:
  "canvas_items example_viewer = [(1, \<lparr>tags = [Pdf], shape = Anchor 270 350\<rparr>)]"
  "next_item example_viewer = 2"
  "redact_overlay example_viewer = None"
  "redactions_by_page example_viewer = Map.empty"
  "text_overlay example_viewer = None"
  by (simp_all add: session_defs evict_drop)

lemma drawing_viewer_state:
  "redact_overlay drawing_viewer
     = Some \<lparr>start_x = Some 100, start_y = Some 100, current_item = Some 2, mode = Draw,
             offset = None\<rparr>"
  "canvas_items drawing_viewer
     = [(1, \<lparr>tags = [Pdf], shape = Anchor 270 350\<rparr>),
        (2, \<lparr>tags = [Redact_overlay], shape = Rectangle 100 100 200 150\<rparr>)]"
  "current_page drawing_viewer = 0"
  "redactions_by_page drawing_viewer = Map.empty"
  by (simp_all add: drawing_viewer_def redact_defs example_viewer_canvas example_viewer_geometry)

lemma tiny_drawing_viewer_state:
  "redact_overlay tiny_drawing_viewer
     = Some \<lparr>start_x = Some 10, start_y = Some 10, current_item = Some 2, mode = Draw,
             offset = None\<rparr>"
  "canvas_items tiny_drawing_viewer
     = [(1, \<lparr>tags = [Pdf], shape = Anchor 270 350\<rparr>),
        (2, \<lparr>tags = [Redact_overlay], shape = Rectangle 10 10 12 40\<rparr>)]"
  "current_page tiny_drawing_viewer = 0"
  "redactions_by_page tiny_drawing_viewer = Map.empty"
  by (simp_all add: tiny_drawing_viewer_def redact_defs example_viewer_canvas example_viewer_geometry)

lemma redacted_viewer_state:
  "redact_overlay redacted_viewer
     = Some \<lparr>start_x = None, start_y = None, current_item = Some 2, mode = Draw, offset = None\<rparr>"
  "canvas_items redacted_viewer
     = [(1, \<lparr>tags = [Pdf], shape = Anchor 270 350\<rparr>),
        (2, \<lparr>tags = [Redact_overlay], shape = Rectangle 100 100 200 150\<rparr>)]"
  "current_page redacted_viewer = 0"
  "redactions_by_page redacted_viewer = [0 \<mapsto> [(100, 100, 200, 150)]]"
  by (simp_all add: redacted_viewer_def redact_defs drawing_viewer_state)

lemma moved_viewer_state:
  "redact_overlay moved_viewer
     = Some \<lparr>start_x = None, start_y = None, current_item = Some 2, mode = Move,
             offset = Some (20, 20)\<rparr>"
  "canvas_items moved_viewer
     = [(1, \<lparr>tags = [Pdf], shape = Anchor 270 350\<rparr>),
        (2, \<lparr>tags = [Redact_overlay], shape = Rectangle 200 150 300 200\<rparr>)]"
  "current_page moved_viewer = 0"
  "redactions_by_page moved_viewer = [0 \<mapsto> [(100, 100, 200, 150)]]"
  by (simp_all add: moved_viewer_def redact_defs redacted_viewer_state)

lemma nudged_viewer_state:
  "canvas_items nudged_viewer
     = [(1, \<lparr>tags = [Pdf], shape = Anchor 270 350\<rparr>),
        (2, \<lparr>tags = [Redact_overlay], shape = Rectangle 100 100 205 150\<rparr>)]"
  "redactions_by_page nudged_viewer = [0 \<mapsto> [(100, 100, 200, 150)]]"
  by (simp_all add: nudged_viewer_def redact_defs redacted_viewer_state)

lemma drawing_viewers_reachable:
  "reachable example_env drawing_viewer" "reachable example_env tiny_drawing_viewer"
  unfolding drawing_viewer_def tiny_drawing_viewer_def
  by (rule reachable_run[OF example_viewer_reachable])+

theorem redact_finish_threshold_witness:
  "reachable example_env drawing_viewer
   \<and> canvas_coords drawing_viewer 2 = [100, 100, 200, 150]
   \<and> redactions_by_page (snd (redact_finish drawing_viewer)) = [0 \<mapsto> [(100, 100, 200, 150)]]
   \<and> reachable example_env tiny_drawing_viewer
   \<and> canvas_coords tiny_drawing_viewer 2 = [10, 10, 12, 40]
   \<and> redactions_by_page (snd (redact_finish tiny_drawing_viewer)) = Map.empty
   \<and> canvas_coords (snd (redact_finish tiny_drawing_viewer)) 2 = []"
proof -
  have c: "canvas_coords drawing_viewer 2 = [100, 100, 200, 150]"
    "canvas_coords tiny_drawing_viewer 2 = [10, 10, 12, 40]"
    by (simp_all add: canvas_coords_def drawing_viewer_state tiny_drawing_viewer_state)
  note g = redact_finish_threshold[OF drawing_viewers_reachable(1), THEN conjunct2, THEN conjunct2,
      rule_format, of _ 2 100 100 200 150]
  note t = redact_finish_threshold[OF drawing_viewers_reachable(2), THEN conjunct2, THEN conjunct2,
      rule_format, of _ 2 10 10 12 40]
  have 1: "redactions_by_page (snd (redact_finish drawing_viewer)) = [0 \<mapsto> [(100, 100, 200, 150)]]"
    using g c(1) by (simp add: drawing_viewer_state)
  have 2: "redactions_by_page (snd (redact_finish tiny_drawing_viewer)) = Map.empty
      \<and> canvas_coords (snd (redact_finish tiny_drawing_viewer)) 2 = []"
    using t c(2) by (simp add: tiny_drawing_viewer_state)
  from 1 2 c drawing_viewers_reachable show ?thesis by simp
qed

text \<open>
  Claim C9 fails on the code. \<^verbatim>\<open>_redact_finish\<close> returns at once in move mode and
  \<^verbatim>\<open>_adjust_redact\<close> writes the canvas only, so after a move or a nudge the store still holds
  the old coordinates. \<^verbatim>\<open>_delete_redact\<close>, which looks the canvas coordinates up in the
  store, then removes the canvas item and leaves the stored rectangle behind.
\<close>

theorem redact_move_and_nudge_not_stored:
  "redactions_by_page redacted_viewer 0 = Some [(100, 100, 200, 150)]
   \<and> canvas_coords redacted_viewer 2 = [100, 100, 200, 150]
   \<and> canvas_coords moved_viewer 2 = [200, 150, 300, 200]
   \<and> redactions_by_page moved_viewer 0 = Some [(100, 100, 200, 150)]
   \<and> canvas_coords nudged_viewer 2 = [100, 100, 205, 150]
   \<and> redactions_by_page nudged_viewer 0 = Some [(100, 100, 200, 150)]
   \<and> canvas_coords (step example_env Delete_redact moved_viewer) 2 = []
   \<and> redactions_by_page (step example_env Delete_redact moved_viewer) 0
        = Some [(100, 100, 200, 150)]"
  by (simp add: redact_defs redacted_viewer_state moved_viewer_state nudged_viewer_state)

section \<open>The text store holds no blank annotation\<close>

lemma text_of_heap: "heap v' = heap v \<Longrightarrow> text_of v' = text_of v"
  by (simp add: text_of_def fun_eq_iff)

lemma redact_handlers_texts [simp]:
  "texts_by_page (snd (redact_start x y items v)) = texts_by_page v"
  "texts_by_page (snd (redact_drag x y v)) = texts_by_page v"
  "texts_by_page (snd (adjust_redact b d v)) = texts_by_page v"
  "texts_by_page (snd (redact_finish v)) = texts_by_page v"
  "texts_by_page (snd (redact_right_click x y items v)) = texts_by_page v"
  "texts_by_page (snd (delete_redact v)) = texts_by_page v"
  "heap (snd (redact_start x y items v)) = heap v"
  "heap (snd (redact_drag x y v)) = heap v"
  "heap (snd (adjust_redact b d v)) = heap v"
  "heap (snd (redact_finish v)) = heap v"
  "heap (snd (redact_right_click x y items v)) = heap v"
  "heap (snd (delete_redact v)) = heap v"
  by (simp_all add: redact_start_def redact_drag_def adjust_redact_def redact_finish_def
      redact_right_click_def delete_redact_def canvas_set_frame
      Let_def split_beta split: option.splits list.splits)

lemma apply_panel_texts [simp]:
  "texts_by_page (apply_panel E v) = texts_by_page v"
  "text_of (apply_panel E v) = text_of v"
  by (simp_all add: apply_panel_def text_of_def fun_eq_iff Let_def split_beta split: option.splits)

lemma set_panel_texts [simp]:
  "texts_by_page (set_font_family E label v) = texts_by_page v"
  "texts_by_page (set_font_size E n v) = texts_by_page v"
  "texts_by_page (set_text_color E c v) = texts_by_page v"
  "text_of (set_font_family E label v) = text_of v"
  "text_of (set_font_size E n v) = text_of v"
  "text_of (set_text_color E c v) = text_of v"
proof -
  have u: "text_of (w\<lparr>font_family := a\<rparr>) = text_of w" "text_of (w\<lparr>font_size := b\<rparr>) = text_of w"
    "text_of (w\<lparr>text_color := c\<rparr>) = text_of w" for w a b c
    by (simp_all add: text_of_def fun_eq_iff)
  show "texts_by_page (set_font_family E label v) = texts_by_page v"
    "texts_by_page (set_font_size E n v) = texts_by_page v"
    "texts_by_page (set_text_color E c v) = texts_by_page v"
    "text_of (set_font_family E label v) = text_of v"
    "text_of (set_font_size E n v) = text_of v"
    "text_of (set_text_color E c v) = text_of v"
    by (simp_all add: set_font_family_def set_font_size_def set_text_color_def u)
qed

lemma text_of_blocks [simp]:
  "text_of (canvas_delete i v) = text_of v"
  "text_of (canvas_delete_withtag t v) = text_of v"
  "text_of (snd (canvas_create it v)) = text_of v"
  "text_of (draw_selection E i v) = text_of v"
  "text_of (clear_text_selection v) = text_of v"
  "text_of (snd (render_text r v)) = text_of v"
  "text_of (v\<lparr>selected_text := a\<rparr>) = text_of v"
  "text_of (v\<lparr>text_drag := b\<rparr>) = text_of v"
  "text_of (v\<lparr>text_entries := c\<rparr>) = text_of v"
  "text_of (v\<lparr>text_overlay := d\<rparr>) = text_of v"
  "text_of (v\<lparr>redact_overlay := e\<rparr>) = text_of v"
  "text_of (v\<lparr>text_panel := f\<rparr>) = text_of v"
  "text_of (v\<lparr>font_family := g\<rparr>) = text_of v"
  "text_of (v\<lparr>font_size := h\<rparr>) = text_of v"
  "text_of (v\<lparr>text_color := k\<rparr>) = text_of v"
  "text_of (v\<lparr>texts_by_page := l\<rparr>) = text_of v"
  by (simp_all add: text_of_def fun_eq_iff)

lemma select_text_texts [simp]:
  "texts_by_page (select_text E item td v) = texts_by_page v"
  "text_of (select_text E item td v) = text_of v"
  by (simp_all add: select_text_def Let_def split: option.splits)

lemma text_handlers_texts [simp]:
  "texts_by_page (text_click E x y items v) = texts_by_page v"
  "text_of (text_click E x y items v) = text_of v"
  "texts_by_page (entry_escape w v) = texts_by_page v"
  "text_of (entry_escape w v) = text_of v"
  "texts_by_page (snd (text_drag_move E x y v)) = texts_by_page v"
  "text_of (snd (text_drag_move E x y v)) = text_of v"
  "texts_by_page (text_drag_drop E v) = texts_by_page v"
  "text_of (text_drag_drop E v) = text_of v"
  "texts_by_page (deactivate_current_tool v) = texts_by_page v"
  "text_of (deactivate_current_tool v) = text_of v"
  "texts_by_page (action_redact v) = texts_by_page v"
  "text_of (action_redact v) = text_of v"
  "texts_by_page (action_write v) = texts_by_page v"
  "text_of (action_write v) = text_of v"
                apply (simp add: text_click_def Let_def split_beta split: option.splits list.splits)
               apply (simp add: text_click_def Let_def split_beta split: option.splits list.splits)
              apply (simp add: entry_escape_def split: option.splits)
             apply (simp add: entry_escape_def split: option.splits)
            apply (simp add: text_drag_move_def canvas_set_frame split: option.splits)
           apply (auto simp: text_drag_move_def text_of_def fun_eq_iff canvas_set_frame split: option.splits)[1]
          apply (simp add: text_drag_drop_def Let_def split: option.splits list.splits)
         apply (simp add: text_drag_drop_def text_of_def fun_eq_iff Let_def split: option.splits list.splits)
        apply (simp add: deactivate_current_tool_def Let_def split: option.splits)
       apply (simp add: deactivate_current_tool_def Let_def split: option.splits)
      apply (simp add: action_redact_def)
     apply (simp add: action_redact_def)
    apply (simp add: action_write_def create_text_panel_def)
   apply (simp add: action_write_def create_text_panel_def)
  done

lemma py_strip_empty: "py_strip s = [] \<longleftrightarrow> (\<forall>c\<in>set s. py_isspace c)"
proof
  assume "py_strip s = []"
  then have "\<forall>c\<in>set (dropWhile py_isspace s). py_isspace c"
    by (simp add: py_strip_def)
  then have "dropWhile py_isspace s = []"
    by (metis dropWhile_eq_Nil_conv dropWhile_idem)
  then show "\<forall>c\<in>set s. py_isspace c" by simp
next
  assume "\<forall>c\<in>set s. py_isspace c"
  then have d: "dropWhile py_isspace s = []" by simp
  show "py_strip s = []" unfolding py_strip_def d by simp
qed

lemma texts_ok_same:
  "texts_by_page v' = texts_by_page v \<Longrightarrow> text_of v' = text_of v \<Longrightarrow> texts_ok v
   \<Longrightarrow> texts_ok v'"
  by (simp add: texts_ok_def)

lemma set_remove_equal: "set (remove_equal h d rs) \<subseteq> set rs"
  by (induction rs) auto

lemma delete_text_ok:
  assumes "texts_ok v"
  shows "texts_ok (delete_text item td v)"
proof -
  have t: "text_of (delete_text item td v) = text_of v"
    by (simp add: delete_text_def Let_def split: option.splits)
  have "\<forall>r\<in>set rs. py_strip (text_of v r) \<noteq> []"
    if "texts_by_page (delete_text item td v) p = Some rs" for p rs
  proof (cases "texts_by_page v (current_page v)")
    case None
    then have "texts_by_page (delete_text item td v) = texts_by_page v"
      by (simp add: delete_text_def Let_def)
    with that assms show ?thesis by (simp add: texts_ok_def)
  next
    case (Some old)
    then have e: "texts_by_page (delete_text item td v)
        = (texts_by_page v)(current_page v \<mapsto> remove_equal (heap v) (heap v td) old)"
      by (simp add: delete_text_def Let_def)
    show ?thesis
    proof (cases "p = current_page v")
      case True
      with that e have "set rs \<subseteq> set old"
        using set_remove_equal[of "heap v" "heap v td" old] by auto
      with Some assms show ?thesis by (auto simp: texts_ok_def)
    next
      case False
      with that e assms show ?thesis by (auto simp: texts_ok_def)
    qed
  qed
  then show ?thesis by (simp add: texts_ok_def t)
qed

lemma text_right_click_ok: "texts_ok v \<Longrightarrow> texts_ok (text_right_click x y items v)"
proof -
  assume a: "texts_ok v"
  have "texts_ok (clear_text_selection w) = texts_ok w" for w by (simp add: texts_ok_def)
  with a delete_text_ok[OF a] show ?thesis
    by (simp add: text_right_click_def split: option.splits)
qed

lemma save_text_store:
  assumes "text_entries v w = Some (ex, ey, fam)"
  shows "py_strip text = [] \<Longrightarrow>
           texts_by_page (save_text w text v) = texts_by_page v \<and> heap (save_text w text v) = heap v"
    and "py_strip text \<noteq> [] \<Longrightarrow>
           texts_by_page (save_text w text v)
             = (texts_by_page v)(current_page v \<mapsto>
                 (case texts_by_page v (current_page v) of None \<Rightarrow> [] | Some rs \<Rightarrow> rs) @ [next_ref v])
           \<and> heap (save_text w text v)
             = (heap v)(next_ref v := \<lparr>td_x = ex, td_y = ey, td_text = text, td_font = fam,
                  td_size = font_size v, td_color = text_color v, td_id = current_page v\<rparr>)"
  using assms by (simp_all add: save_text_def Let_def)

lemma save_text_ok:
  assumes "texts_ok v"
  shows "texts_ok (save_text w text v)"
proof (cases "text_entries v w")
  case None
  with assms show ?thesis by (simp add: save_text_def)
next
  case (Some c)
  obtain ex ey fam where c: "c = (ex, ey, fam)" by (cases c) auto
  from Some c have se: "text_entries v w = Some (ex, ey, fam)" by simp
  note s = save_text_store[OF se]
  show ?thesis
  proof (cases "py_strip text = []")
    case True
    with s(1) assms show ?thesis by (simp add: texts_ok_def text_of_def)
  next
    case False
    let ?v' = "save_text w text v"
    have t: "py_strip (text_of ?v' r) \<noteq> []" if "py_strip (text_of v r) \<noteq> [] \<or> r = next_ref v" for r
      using that s(2)[OF False] False by (auto simp: text_of_def)
    show ?thesis
      unfolding texts_ok_def
    proof (intro allI impI ballI)
      fix p rs r
      assume p: "texts_by_page ?v' p = Some rs" and r: "r \<in> set rs"
      show "py_strip (text_of ?v' r) \<noteq> []"
      proof (cases "p = current_page v")
        case False
        with p s(2)[OF \<open>py_strip text \<noteq> []\<close>] have "texts_by_page v p = Some rs" by simp
        with r assms have "py_strip (text_of v r) \<noteq> []" by (auto simp: texts_ok_def)
        then show ?thesis by (simp add: t)
      next
        case True
        with p s(2)[OF \<open>py_strip text \<noteq> []\<close>]
        have rs: "rs = (case texts_by_page v (current_page v) of None \<Rightarrow> [] | Some rs \<Rightarrow> rs) @ [next_ref v]"
          by simp
        show ?thesis
        proof (cases "r = next_ref v")
          case True
          then show ?thesis by (simp add: t)
        next
          case False
          with rs r obtain old where "texts_by_page v (current_page v) = Some old" "r \<in> set old"
            by (cases "texts_by_page v (current_page v)") auto
          with assms have "py_strip (text_of v r) \<noteq> []" by (auto simp: texts_ok_def)
          then show ?thesis by (simp add: t)
        qed
      qed
    qed
  qed
qed

lemma text_of_frames [simp]:
  "text_of (snd (display_page E v)) = text_of v"
  "text_of (snd (schedule_thumb_batch E v)) = text_of v"
  "text_of (snd (goto_page E n v)) = text_of v"
  "text_of (snd (redact_start x y items v)) = text_of v"
  "text_of (snd (redact_drag x y v)) = text_of v"
  "text_of (snd (adjust_redact b d v)) = text_of v"
  "text_of (snd (redact_finish v)) = text_of v"
  "text_of (snd (redact_right_click x y items v)) = text_of v"
  "text_of (snd (delete_redact v)) = text_of v"
  "text_of (v\<lparr>canvas_width := cw\<rparr>) = text_of v"
  "text_of (v\<lparr>canvas_height := ch\<rparr>) = text_of v"
  "text_of (v\<lparr>fit_to_window := f\<rparr>) = text_of v"
  "text_of (v\<lparr>zoom := z\<rparr>) = text_of v"
  by (rule text_of_heap, simp)+

lemma step_texts_ok: "texts_ok v \<Longrightarrow> texts_ok (step E ev v)"
proof (cases ev)
  case (Save_text w s)
  assume "texts_ok v"
  with Save_text show ?thesis by (simp add: save_text_ok)
next
  case (Text_right_click x y items)
  assume "texts_ok v"
  with Text_right_click show ?thesis by (simp add: text_right_click_ok)
next
  case Share_save
  assume "texts_ok v"
  with Share_save show ?thesis
    by (simp add: texts_ok_def text_of_def
        only_view_changed_fields(2,3)[OF export_with_overlays_view])
qed (simp_all add: texts_ok_def zoom_in_def zoom_out_def next_page_def
      prev_page_def Let_def)

lemma reachable_texts_ok: "reachable E v \<Longrightarrow> texts_ok v"
proof (induction rule: reachable.induct)
  case (init doc cw ch v)
  with init_redactions(2)[of E doc cw ch] show ?case by (simp add: texts_ok_def)
next
  case (step v ev)
  then show ?case by (simp add: step_texts_ok)
qed

text \<open>
  Claim C7. In every viewer a session can reach, each annotation of the text store has a
  text that is not empty after \<^verbatim>\<open>strip()\<close>. \<^verbatim>\<open>save_text\<close> on a text that is empty after
  stripping, that is, on a text of white space only, leaves the store and the annotations as
  they are; on any other text it appends one new annotation with that text to the list of
  the current page.
\<close>

theorem save_text_rejects_blank:
  assumes "reachable E v"
  shows "texts_ok v
     \<and> (\<forall>w ex ey fam text. text_entries v w = Some (ex, ey, fam) \<longrightarrow>
          (if py_strip text = []
           then texts_by_page (save_text w text v) = texts_by_page v
                \<and> heap (save_text w text v) = heap v
           else texts_by_page (save_text w text v)
                  = (texts_by_page v)(current_page v \<mapsto>
                      (case texts_by_page v (current_page v) of None \<Rightarrow> [] | Some rs \<Rightarrow> rs)
                        @ [next_ref v])
                \<and> td_text (heap (save_text w text v) (next_ref v)) = text))
     \<and> (\<forall>text. py_strip text = [] \<longleftrightarrow> (\<forall>c\<in>set text. py_isspace c))"
proof -
  have st: "(if py_strip s0 = []
           then texts_by_page (save_text w s0 v) = texts_by_page v
                \<and> heap (save_text w s0 v) = heap v
           else texts_by_page (save_text w s0 v)
                  = (texts_by_page v)(current_page v \<mapsto>
                      (case texts_by_page v (current_page v) of None \<Rightarrow> [] | Some rs \<Rightarrow> rs)
                        @ [next_ref v])
                \<and> td_text (heap (save_text w s0 v) (next_ref v)) = s0)"
    if "text_entries v w = Some (ex, ey, fam)" for w ex ey fam s0
    using save_text_store[OF that] by simp
  from reachable_texts_ok[OF assms] st py_strip_empty show ?thesis by blast
qed

lemmas text_defs = action_write_def create_text_panel_def text_click_def save_text_def
  tk_family_of_def font_map_def render_text_def

lemma example_viewer_text_fields:
  "text_entries example_viewer = Map.empty"
  "texts_by_page example_viewer = Map.empty"
  "next_ref example_viewer = 0"
  "text_panel example_viewer = False"
  "selected_text example_viewer = None"
  by (simp_all add: session_defs evict_drop)

lemma writing_viewer_state:
  "text_entries writing_viewer 2 = Some (50, 50, py ''Helvetica'')"
  "texts_by_page writing_viewer = Map.empty"
  "current_page writing_viewer = 0"
  "next_ref writing_viewer = 0"
  by (simp_all add: writing_viewer_def text_defs redact_defs example_viewer_canvas
      example_viewer_geometry example_viewer_text_fields)

lemma writing_viewer_reachable: "reachable example_env writing_viewer"
  unfolding writing_viewer_def by (rule reachable_run[OF example_viewer_reachable])

lemma strip_examples:
  "py_strip [72, 101, 108, 108, 111] = [72, 101, 108, 108, 111]"
  "py_strip [32, 9, 12288] = []"
  by (simp_all add: py_strip_def py_isspace_def)

theorem save_text_rejects_blank_witness:
  "reachable example_env writing_viewer
   \<and> text_entries writing_viewer 2 = Some (50, 50, py ''Helvetica'')
   \<and> py_strip [72, 101, 108, 108, 111] \<noteq> []
   \<and> texts_by_page (save_text 2 [72, 101, 108, 108, 111] writing_viewer) = [0 \<mapsto> [0]]
   \<and> td_text (heap (save_text 2 [72, 101, 108, 108, 111] writing_viewer) 0)
        = [72, 101, 108, 108, 111]
   \<and> py_strip [32, 9, 12288] = []
   \<and> texts_by_page (save_text 2 [32, 9, 12288] writing_viewer) = Map.empty"
proof -
  note t = save_text_rejects_blank[OF writing_viewer_reachable, THEN conjunct2, THEN conjunct1,
      rule_format, OF writing_viewer_state(1)]
  from t[of "[72, 101, 108, 108, 111]"] t[of "[32, 9, 12288]"] writing_viewer_reachable
  show ?thesis by (simp add: strip_examples writing_viewer_state)
qed

section \<open>Export of redactions and the page on display\<close>

lemma example_viewer_more:
  "total_pages example_viewer = 2"
  "base_zoom example_viewer = 3 / 2"
  "max_thumb_cache example_viewer = 200"
  "text_drag example_viewer = None"
  by (simp_all add: session_defs evict_drop)

lemmas display_defs = goto_page_def ensure_thumb_def move_to_end_def display_page_def
  example_env_def restore_redactions_def restore_texts_def Let_def

lemma page1_viewer_state:
  "pdf_document page1_viewer = [(612, 792), (792, 612)]"
  "total_pages page1_viewer = 2"
  "current_page page1_viewer = 1"
  "page_photo page1_viewer = PhotoImage 500 386"
  "thumbnail_cache page1_viewer = [(0, (139, 180)), (1, (140, 108))]"
  "base_zoom page1_viewer = 3 / 2"
  "fit_to_window page1_viewer"
  "canvas_width page1_viewer = 540"
  "canvas_height page1_viewer = 700"
  "canvas_items page1_viewer = [(2, \<lparr>tags = [Pdf], shape = Anchor 270 350\<rparr>)]"
  "next_item page1_viewer = 3"
  "redactions_by_page page1_viewer = Map.empty"
  "texts_by_page page1_viewer = Map.empty"
  "text_entries page1_viewer = Map.empty"
  "next_ref page1_viewer = 0"
  "text_panel page1_viewer = False"
  "text_overlay page1_viewer = None"
  "selected_text page1_viewer = None"
  "text_drag page1_viewer = None"
  "redact_overlay page1_viewer = None"
  by (simp_all add: page1_viewer_def display_defs redact_defs example_viewer_geometry
      example_viewer_canvas example_viewer_cache example_viewer_more example_viewer_text_fields)


lemma page1_redacted_state:
  "pdf_document page1_redacted = [(612, 792), (792, 612)]"
  "total_pages page1_redacted = 2"
  "current_page page1_redacted = 1"
  "page_photo page1_redacted = PhotoImage 500 386"
  "thumbnail_cache page1_redacted = [(0, (139, 180)), (1, (140, 108))]"
  "base_zoom page1_redacted = 3 / 2"
  "fit_to_window page1_redacted"
  "canvas_width page1_redacted = 540"
  "canvas_height page1_redacted = 700"
  "canvas_items page1_redacted
     = [(2, \<lparr>tags = [Pdf], shape = Anchor 270 350\<rparr>),
        (3, \<lparr>tags = [Redact_overlay], shape = Rectangle 100 200 200 250\<rparr>)]"
  "next_item page1_redacted = 4"
  "redactions_by_page page1_redacted = [1 \<mapsto> [(100, 200, 200, 250)]]"
  "texts_by_page page1_redacted = Map.empty"
  "text_entries page1_redacted = Map.empty"
  "next_ref page1_redacted = 0"
  "text_panel page1_redacted = False"
  "text_overlay page1_redacted = None"
  "selected_text page1_redacted = None"
  "text_drag page1_redacted = None"
  by (simp_all add: page1_redacted_def redact_defs page1_viewer_state)

lemma shown_page1_state:
  "pdf_document shown_page1 = [(612, 792), (792, 612)]"
  "total_pages shown_page1 = 2"
  "current_page shown_page1 = 1"
  "page_photo shown_page1 = PhotoImage 500 386"
  "thumbnail_cache shown_page1 = [(0, (139, 180)), (1, (140, 108))]"
  "base_zoom shown_page1 = 3 / 2"
  "fit_to_window shown_page1"
  "canvas_width shown_page1 = 540"
  "canvas_height shown_page1 = 700"
  "canvas_items shown_page1
     = [(2, \<lparr>tags = [Pdf], shape = Anchor 270 350\<rparr>),
        (3, \<lparr>tags = [Redact_overlay], shape = Rectangle 100 200 200 250\<rparr>),
        (5, \<lparr>tags = [Text_overlay, Text_id 0], shape = Anchor 100 200\<rparr>)]"
  "next_item shown_page1 = 6"
  "redactions_by_page shown_page1 = [1 \<mapsto> [(100, 200, 200, 250)]]"
  "texts_by_page shown_page1 = [1 \<mapsto> [0]]"
  "heap shown_page1 0 = \<lparr>td_x = 100, td_y = 200, td_text = [72, 105], td_font = py ''Helvetica'',
      td_size = 12, td_color = py ''#000000'', td_id = 1\<rparr>"
  by (simp_all add: shown_page1_def text_defs redact_defs page1_redacted_state
      py_strip_def py_isspace_def)

lemma shown_page0_state:
  "pdf_document shown_page0 = [(612, 792), (792, 612)]"
  "total_pages shown_page0 = 2"
  "current_page shown_page0 = 0"
  "page_photo shown_page0 = PhotoImage 500 647"
  "base_zoom shown_page0 = 3 / 2"
  "fit_to_window shown_page0"
  "canvas_width shown_page0 = 540"
  "canvas_height shown_page0 = 700"
  "canvas_items shown_page0 = [(6, \<lparr>tags = [Pdf], shape = Anchor 270 350\<rparr>)]"
  "next_item shown_page0 = 7"
  "redactions_by_page shown_page0 = [1 \<mapsto> [(100, 200, 200, 250)]]"
  "texts_by_page shown_page0 = [1 \<mapsto> [0]]"
  "heap shown_page0 0 = \<lparr>td_x = 100, td_y = 200, td_text = [72, 105], td_font = py ''Helvetica'',
      td_size = 12, td_color = py ''#000000'', td_id = 1\<rparr>"
  by (simp_all add: shown_page0_def display_defs redact_defs shown_page1_state)


lemma display_page_returns:
  "current_page v < length (pdf_document v) \<Longrightarrow> render_raises E = (\<lambda>z page. False) \<Longrightarrow>
   fst (display_page E v) = None"
  by (simp add: display_page_def Let_def)

lemma export_texts_single:
  "fst (export_text E p td v) = Inr (Some t) \<Longrightarrow> fst (export_texts E p [td] v) = Inr [t]"
  by (cases "export_text E p td v") simp

lemma export_page_parts:
  "redactions_by_page v p = Some rs \<Longrightarrow> export_redactions E v p rs = Inr rects \<Longrightarrow>
   texts_by_page v p = Some tds \<Longrightarrow> fst (export_texts E p tds v) = Inr texts \<Longrightarrow>
   fst (export_page E p v) = Inr \<lparr>drawn_rects = rects, inserted_texts = texts\<rparr>"
  by (cases "export_texts E p tds v") (simp add: export_page_def)

lemma export_page_empty:
  "redactions_by_page v p = None \<Longrightarrow> texts_by_page v p = None \<Longrightarrow>
   export_page E p v = (Inr \<lparr>drawn_rects = [], inserted_texts = []\<rparr>, v)"
  by (simp add: export_page_def)

lemma export_pages_two:
  "export_page E a v = (Inr pa, v) \<Longrightarrow> fst (export_page E b v) = Inr pb \<Longrightarrow>
   fst (export_pages E [a, b] v) = Inr [pa, pb]"
  by (cases "export_page E b v") simp

lemma export_with_overlays_saved:
  "fst (export_pages E [0 ..< length (pdf_document v)] v) = Inr out \<Longrightarrow> \<not> copy_raises E \<Longrightarrow>
   \<not> save_raises E \<Longrightarrow> fst (export_with_overlays E v) = Inr out"
  by (cases "export_pages E [0 ..< length (pdf_document v)] v") (simp add: export_with_overlays_def)

lemma helv: "fitz_font_from_tk (py ''Helvetica'') = py ''helv''"
  by (simp add: fitz_font_from_tk_def font_map_def py_lower_def)

lemma black: "hex_to_rgb01 example_env (py ''#000000'') = Inr (0, 0, 0)"
  by (simp add: hex_to_rgb01_def py_strip_def py_isspace_def example_env_def hex_digit_def)

lemma example_env_fields:
  "\<not> save_raises example_env" "\<not> insert_text_raises example_env f d"
  "\<not> copy_raises example_env" "\<not> draw_rect_raises example_env r"
  "\<not> render_raises example_env z page"
  by (simp_all add: example_env_def)

lemma example_env_renders: "render_raises example_env = (\<lambda>z page. False)"
  by (simp add: example_env_def)

lemma upt_0_2: "[0 ..< 2] = [0, 1::nat]"
  by (simp add: upt_rec)

lemma export_shown_page1:
  "fst (export_with_overlays example_env shown_page1)
     = Inr [\<lparr>drawn_rects = [], inserted_texts = []\<rparr>,
            \<lparr>drawn_rects = [(3168 / 25, 89658 / 193, 7128 / 25, 104958 / 193)],
             inserted_texts = [\<lparr>op_x = 3168 / 25, op_y = 534054 / 965, op_text = [72, 105],
               op_fontsize = 12, op_fontname = Some (py ''helv''), op_color = (0, 0, 0)\<rparr>]\<rparr>]"
proof -
  have p0: "export_page example_env 0 shown_page1
      = (Inr \<lparr>drawn_rects = [], inserted_texts = []\<rparr>, shown_page1)"
    by (rule export_page_empty) (simp_all add: shown_page1_state)
  have r: "export_redactions example_env shown_page1 1 [(100, 200, 200, 250)]
      = Inr [(3168 / 25, 89658 / 193, 7128 / 25, 104958 / 193)]"
    by (simp add: canvas_rect_to_pdf_rect_def point_eq shown_page1_state example_env_fields)
  have t: "fst (export_text example_env 1 0 shown_page1)
      = Inr (Some \<lparr>op_x = 3168 / 25, op_y = 534054 / 965, op_text = [72, 105],
               op_fontsize = 12, op_fontname = Some (py ''helv''), op_color = (0, 0, 0)\<rparr>)"
    using helv black
    by (simp add: export_text_def point_eq shown_page1_state example_env_fields)
  have p1: "fst (export_page example_env 1 shown_page1)
      = Inr \<lparr>drawn_rects = [(3168 / 25, 89658 / 193, 7128 / 25, 104958 / 193)],
             inserted_texts = [\<lparr>op_x = 3168 / 25, op_y = 534054 / 965, op_text = [72, 105],
               op_fontsize = 12, op_fontname = Some (py ''helv''), op_color = (0, 0, 0)\<rparr>]\<rparr>"
    by (rule export_page_parts[OF _ r _ export_texts_single[OF t]])
       (simp_all add: shown_page1_state)
  from export_pages_two[OF p0 p1] show ?thesis
    by (intro export_with_overlays_saved) (simp_all add: shown_page1_state upt_0_2 example_env_fields)
qed


lemma rerendered_page1:
  "fst (display_page example_env (shown_page0\<lparr>current_page := Suc 0\<rparr>)) = None"
  "page_photo (snd (display_page example_env (shown_page0\<lparr>current_page := Suc 0\<rparr>))) = PhotoImage 500 386"
  "pdf_document (snd (display_page example_env (shown_page0\<lparr>current_page := Suc 0\<rparr>)))
     = [(612, 792), (792, 612)]"
  "fit_to_window (snd (display_page example_env (shown_page0\<lparr>current_page := Suc 0\<rparr>)))"
  "canvas_width (snd (display_page example_env (shown_page0\<lparr>current_page := Suc 0\<rparr>))) = 540"
  "canvas_height (snd (display_page example_env (shown_page0\<lparr>current_page := Suc 0\<rparr>))) = 700"
  by (simp_all add: display_defs redact_defs render_text_def shown_page0_state)

lemma export_shown_page0:
  "fst (export_with_overlays example_env shown_page0)
     = Inr [\<lparr>drawn_rects = [], inserted_texts = []\<rparr>,
            \<lparr>drawn_rects = [(3168 / 25, 259182 / 647, 7128 / 25, 289782 / 647)],
             inserted_texts = [\<lparr>op_x = 3168 / 25, op_y = 534054 / 965, op_text = [72, 105],
               op_fontsize = 12, op_fontname = Some (py ''helv''), op_color = (0, 0, 0)\<rparr>]\<rparr>]"
proof -
  let ?v1 = "snd (display_page example_env (shown_page0\<lparr>current_page := Suc 0\<rparr>))"
  have p0: "export_page example_env 0 shown_page0
      = (Inr \<lparr>drawn_rects = [], inserted_texts = []\<rparr>, shown_page0)"
    by (rule export_page_empty) (simp_all add: shown_page0_state)
  have r: "export_redactions example_env shown_page0 1 [(100, 200, 200, 250)]
      = Inr [(3168 / 25, 259182 / 647, 7128 / 25, 289782 / 647)]"
    by (simp add: canvas_rect_to_pdf_rect_def point_eq shown_page0_state example_env_fields)
  have restored: "fst (display_page example_env (?v1\<lparr>current_page := 0\<rparr>)) = None"
    by (rule display_page_returns) (simp_all add: rerendered_page1 example_env_renders)
  have pt: "canvas_to_pdf_point ?v1 (Suc 0) 100 200 = Inr (3168 / 25, 524790 / 965)"
    by (simp add: point_eq rerendered_page1)
  have t: "fst (export_text example_env 1 0 shown_page0)
      = Inr (Some \<lparr>op_x = 3168 / 25, op_y = 534054 / 965, op_text = [72, 105],
               op_fontsize = 12, op_fontname = Some (py ''helv''), op_color = (0, 0, 0)\<rparr>)"
    using helv black restored pt
    by (simp add: export_text_def split_beta shown_page0_state example_env_fields
        rerendered_page1(1))
  have p1: "fst (export_page example_env 1 shown_page0)
      = Inr \<lparr>drawn_rects = [(3168 / 25, 259182 / 647, 7128 / 25, 289782 / 647)],
             inserted_texts = [\<lparr>op_x = 3168 / 25, op_y = 534054 / 965, op_text = [72, 105],
               op_fontsize = 12, op_fontname = Some (py ''helv''), op_color = (0, 0, 0)\<rparr>]\<rparr>"
    by (rule export_page_parts[OF _ r _ export_texts_single[OF t]])
       (simp_all add: shown_page0_state)
  from export_pages_two[OF p0 p1] show ?thesis
    by (intro export_with_overlays_saved) (simp_all add: shown_page0_state upt_0_2 example_env_fields)
qed

text \<open>
  Claim C1 fails on the code. The loop over the redaction rectangles of a page calls
  \<^verbatim>\<open>_canvas_rect_to_pdf_rect\<close> on the viewer as it is, with the image of whatever page is on
  display; only the loop over the texts shows the page first. The same stores exported
  while page 1 is shown and while page 0 is shown give different rectangles for the
  redaction of page 1, and the same position for its text.
\<close>

theorem export_redactions_use_displayed_page:
  "current_page shown_page1 = 1 \<and> current_page shown_page0 = 0
   \<and> redactions_by_page shown_page0 = redactions_by_page shown_page1
   \<and> texts_by_page shown_page0 = texts_by_page shown_page1
   \<and> redactions_by_page shown_page1 1 = Some [(100, 200, 200, 250)]
   \<and> map drawn_rects (projr (fst (export_with_overlays example_env shown_page1)))
        = [[], [(3168 / 25, 89658 / 193, 7128 / 25, 104958 / 193)]]
   \<and> map drawn_rects (projr (fst (export_with_overlays example_env shown_page0)))
        = [[], [(3168 / 25, 259182 / 647, 7128 / 25, 289782 / 647)]]
   \<and> map (map (\<lambda>t. (op_x t, op_y t)) \<circ> inserted_texts)
          (projr (fst (export_with_overlays example_env shown_page1)))
        = [[], [(3168 / 25, 534054 / 965)]]
   \<and> map (map (\<lambda>t. (op_x t, op_y t)) \<circ> inserted_texts)
          (projr (fst (export_with_overlays example_env shown_page0)))
        = [[], [(3168 / 25, 534054 / 965)]]"
  by (simp add: export_shown_page1 export_shown_page0 shown_page1_state shown_page0_state)

end
